theory Spec2Isabelle
  imports Main "HOL-Library.List_Lexorder"
begin

section \<open>Python strings\<close>

text \<open>
  A Python \<open>str\<close> is a sequence of Unicode code points, so a string is a list of natural
  numbers here; \<open>cps\<close> turns a literal into its code points. Comparison of strings
  (used by \<open>sorted\<close>) is the lexicographic order on code points, which is the order on
  lists of this theory's imports.
\<close>

type_synonym ustr = "nat list"

definition cps :: "string \<Rightarrow> ustr" where
  "cps s = map of_char s"

text \<open>\<open>sep.join(xs)\<close> on a list of strings.\<close>

fun join :: "ustr \<Rightarrow> ustr list \<Rightarrow> ustr" where
  "join sep [] = []"
| "join sep [x] = x"
| "join sep (x # y # ys) = x @ sep @ join sep (y # ys)"

text \<open>
  \<open>str.strip()\<close> removes the leading and trailing characters for which \<open>str.isspace\<close>
  holds: the ASCII controls 9 to 13 and 28 to 31, the space, and the Unicode spaces and
  line separators listed below.
\<close>

definition is_space :: "nat \<Rightarrow> bool" where
  "is_space c \<longleftrightarrow>
     (9 \<le> c \<and> c \<le> 13) \<or> (28 \<le> c \<and> c \<le> 32) \<or> c = 0x85 \<or> c = 0xA0 \<or> c = 0x1680 \<or>
     (0x2000 \<le> c \<and> c \<le> 0x200A) \<or> c = 0x2028 \<or> c = 0x2029 \<or> c = 0x202F \<or>
     c = 0x205F \<or> c = 0x3000"

definition strip :: "ustr \<Rightarrow> ustr" where
  "strip s = rev (dropWhile is_space (rev (dropWhile is_space s)))"

text \<open>
  Case conversion. On ASCII the mappings are written out. Beyond ASCII they come from the
  Unicode character database of the Python runtime, which is a parameter: the full
  upper-case and title-case mappings of a code point (one code point may map to several),
  the lower-casing of the character at an index of a string (it looks at the context for
  the Greek capital sigma), and whether a code point is cased.
\<close>

record ucd =
  to_upper_full :: "nat \<Rightarrow> ustr"
  to_title_full :: "nat \<Rightarrow> ustr"
  to_lower_at :: "ustr \<Rightarrow> nat \<Rightarrow> ustr"
  is_cased :: "nat \<Rightarrow> bool"

definition ascii_upper :: "nat \<Rightarrow> nat" where
  "ascii_upper c = (if 97 \<le> c \<and> c \<le> 122 then c - 32 else c)"

definition ascii_lower :: "nat \<Rightarrow> nat" where
  "ascii_lower c = (if 65 \<le> c \<and> c \<le> 90 then c + 32 else c)"

definition ascii_alpha :: "nat \<Rightarrow> bool" where
  "ascii_alpha c \<longleftrightarrow> (65 \<le> c \<and> c \<le> 90) \<or> (97 \<le> c \<and> c \<le> 122)"

definition upper_cp :: "ucd \<Rightarrow> nat \<Rightarrow> ustr" where
  "upper_cp db c = (if c < 128 then [ascii_upper c] else to_upper_full db c)"

definition title_cp :: "ucd \<Rightarrow> nat \<Rightarrow> ustr" where
  "title_cp db c = (if c < 128 then [ascii_upper c] else to_title_full db c)"

definition lower_at :: "ucd \<Rightarrow> ustr \<Rightarrow> nat \<Rightarrow> nat \<Rightarrow> ustr" where
  "lower_at db s i c = (if c < 128 then [ascii_lower c] else to_lower_at db s i)"

definition cased :: "ucd \<Rightarrow> nat \<Rightarrow> bool" where
  "cased db c = (if c < 128 then ascii_alpha c else is_cased db c)"

text \<open>\<open>str.upper()\<close>: every character is replaced by its full upper-case mapping.\<close>

definition upper :: "ucd \<Rightarrow> ustr \<Rightarrow> ustr" where
  "upper db s = concat (map (upper_cp db) s)"

text \<open>
  \<open>str.title()\<close>: a character that follows a cased character is lower-cased, any other
  character is title-cased. \<open>do_title db s i prev cs\<close> is the loop at index \<open>i\<close> of
  \<open>s\<close>, with \<open>cs\<close> the characters from \<open>i\<close> on and \<open>prev\<close> telling whether the
  character before was cased.
\<close>

fun do_title :: "ucd \<Rightarrow> ustr \<Rightarrow> nat \<Rightarrow> bool \<Rightarrow> ustr \<Rightarrow> ustr" where
  "do_title db s i prev [] = []"
| "do_title db s i prev (c # cs) =
     (if prev then lower_at db s i c else title_cp db c) @ do_title db s (Suc i) (cased db c) cs"

definition title :: "ucd \<Rightarrow> ustr \<Rightarrow> ustr" where
  "title db s = do_title db s 0 False s"

text \<open>A database that leaves every code point beyond ASCII alone, for concrete runs.\<close>

definition plain_db :: ucd where
  "plain_db = \<lparr>to_upper_full = (\<lambda>c. [c]), to_title_full = (\<lambda>c. [c]),
     to_lower_at = (\<lambda>s i. [s ! i]), is_cased = (\<lambda>c. False)\<rparr>"

section \<open>weather.py: the lookup tables and the lookup tools\<close>

text \<open>
  The two module-level dictionaries, as association lists in the order of the source.
  Code points beyond ASCII are written as numbers: 237 is i with acute, 244 o with
  circumflex, 225 a with acute, 231 c with cedilla, 227 a with tilde, 233 e with acute.
\<close>

definition SOUTH_AMERICAN_CAPITALS :: "(ustr \<times> ustr) list" where
  "SOUTH_AMERICAN_CAPITALS =
    [(cps ''Argentina'', cps ''Buenos Aires''),
     (cps ''Bolivia'', cps ''La Paz''),
     (cps ''Brasil'', cps ''Bras'' @ [237] @ cps ''lia''),
     (cps ''Chile'', cps ''Santiago''),
     (cps ''Col'' @ [244] @ cps ''mbia'', cps ''Bogot'' @ [225]),
     (cps ''Equador'', cps ''Quito''),
     (cps ''Guiana'', cps ''Georgetown''),
     (cps ''Guiana Francesa'', cps ''Caiena''),
     (cps ''Paraguai'', cps ''Assun'' @ [231, 227] @ cps ''o''),
     (cps ''Peru'', cps ''Lima''),
     (cps ''Suriname'', cps ''Paramaribo''),
     (cps ''Uruguai'', cps ''Montevid'' @ [233] @ cps ''u''),
     (cps ''Venezuela'', cps ''Caracas'')]"

definition US_STATE_CAPITALS :: "(ustr \<times> ustr) list" where
  "US_STATE_CAPITALS =
    [(cps ''AL'', cps ''Montgomery''), (cps ''AK'', cps ''Juneau''),
     (cps ''AZ'', cps ''Phoenix''), (cps ''AR'', cps ''Little Rock''),
     (cps ''CA'', cps ''Sacramento''), (cps ''CO'', cps ''Denver''),
     (cps ''CT'', cps ''Hartford''), (cps ''DE'', cps ''Dover''),
     (cps ''FL'', cps ''Tallahassee''), (cps ''GA'', cps ''Atlanta''),
     (cps ''HI'', cps ''Honolulu''), (cps ''ID'', cps ''Boise''),
     (cps ''IL'', cps ''Springfield''), (cps ''IN'', cps ''Indianapolis''),
     (cps ''IA'', cps ''Des Moines''), (cps ''KS'', cps ''Topeka''),
     (cps ''KY'', cps ''Frankfort''), (cps ''LA'', cps ''Baton Rouge''),
     (cps ''ME'', cps ''Augusta''), (cps ''MD'', cps ''Annapolis''),
     (cps ''MA'', cps ''Boston''), (cps ''MI'', cps ''Lansing''),
     (cps ''MN'', cps ''Saint Paul''), (cps ''MS'', cps ''Jackson''),
     (cps ''MO'', cps ''Jefferson City''), (cps ''MT'', cps ''Helena''),
     (cps ''NE'', cps ''Lincoln''), (cps ''NV'', cps ''Carson City''),
     (cps ''NH'', cps ''Concord''), (cps ''NJ'', cps ''Trenton''),
     (cps ''NM'', cps ''Santa Fe''), (cps ''NY'', cps ''Albany''),
     (cps ''NC'', cps ''Raleigh''), (cps ''ND'', cps ''Bismarck''),
     (cps ''OH'', cps ''Columbus''), (cps ''OK'', cps ''Oklahoma City''),
     (cps ''OR'', cps ''Salem''), (cps ''PA'', cps ''Harrisburg''),
     (cps ''RI'', cps ''Providence''), (cps ''SC'', cps ''Columbia''),
     (cps ''SD'', cps ''Pierre''), (cps ''TN'', cps ''Nashville''),
     (cps ''TX'', cps ''Austin''), (cps ''UT'', cps ''Salt Lake City''),
     (cps ''VT'', cps ''Montpelier''), (cps ''VA'', cps ''Richmond''),
     (cps ''WA'', cps ''Olympia''), (cps ''WV'', cps ''Charleston''),
     (cps ''WI'', cps ''Madison''), (cps ''WY'', cps ''Cheyenne'')]"

text \<open>
  \<open>d.keys()\<close> of a dictionary literal without repeated keys is the keys in the order
  written, \<open>k not in d\<close> is a failed lookup, and \<open>sorted\<close> is a stable sort.
\<close>

definition keys :: "(ustr \<times> ustr) list \<Rightarrow> ustr list" where
  "keys d = map fst d"

definition get_south_american_capital :: "ucd \<Rightarrow> ustr \<Rightarrow> ustr" where
  "get_south_american_capital db country0 =
     (let country = title db (strip country0) in
      case map_of SOUTH_AMERICAN_CAPITALS country of
        None \<Rightarrow>
          cps ''Pa'' @ [237] @ cps ''s n'' @ [227] @ cps ''o encontrado. Pa'' @ [237]
            @ cps ''ses dispon'' @ [237] @ cps ''veis: ''
            @ join (cps '', '') (sort (keys SOUTH_AMERICAN_CAPITALS))
      | Some capital \<Rightarrow>
          cps ''A capital de '' @ country @ cps '' '' @ [233] @ cps '' '' @ capital)"

definition get_us_state_capital :: "ucd \<Rightarrow> ustr \<Rightarrow> ustr" where
  "get_us_state_capital db state0 =
     (let state = upper db (strip state0) in
      case map_of US_STATE_CAPITALS state of
        None \<Rightarrow>
          cps ''Estado n'' @ [227] @ cps ''o encontrado. Estados dispon'' @ [237]
            @ cps ''veis: '' @ join (cps '', '') (sort (keys US_STATE_CAPITALS))
      | Some capital \<Rightarrow>
          cps ''A capital de '' @ state @ cps '' '' @ [233] @ cps '' '' @ capital)"

section \<open>Python values and exceptions\<close>

text \<open>
  The value of \<open>response.json()\<close>: \<open>None\<close>, a bool, an int, a float, a str, a list or
  a dict with string keys (an association list in insertion order, a decoded dict
  having each key once). No arithmetic is done
  on floats anywhere in the program, so a float is carried by its \<open>repr\<close>.
\<close>

type_synonym pyfloat = ustr

datatype json =
  JNull
| JBool bool
| JInt int
| JFloat pyfloat
| JStr ustr
| JArr "json list"
| JObj "(ustr \<times> json) list"

text \<open>
  The exceptions of the model. \<open>ExternalError\<close> is any exception raised by a collaborator
  outside the repository (the model API, the tool session, the evaluator), with its message.
\<close>

datatype exn = KeyError ustr | TypeError | AttributeError | ExternalError ustr

definition ebind :: "exn + 'a \<Rightarrow> ('a \<Rightarrow> exn + 'b) \<Rightarrow> exn + 'b" where
  "ebind m f = (case m of Inl e \<Rightarrow> Inl e | Inr x \<Rightarrow> f x)"

text \<open>A list comprehension or an appending loop whose body can raise: the first raise ends it.\<close>

fun map_exn :: "('a \<Rightarrow> exn + 'b) \<Rightarrow> 'a list \<Rightarrow> exn + 'b list" where
  "map_exn f [] = Inr []"
| "map_exn f (x # xs) =
     (case f x of
        Inl e \<Rightarrow> Inl e
      | Inr y \<Rightarrow> (case map_exn f xs of Inl e \<Rightarrow> Inl e | Inr ys \<Rightarrow> Inr (y # ys)))"

text \<open>Truth value of a value, as \<open>not data\<close> tests it.\<close>

fun truthy :: "json \<Rightarrow> bool" where
  "truthy JNull = False"
| "truthy (JBool b) = b"
| "truthy (JInt i) = (i \<noteq> 0)"
| "truthy (JFloat r) = (r \<noteq> cps ''0.0'' \<and> r \<noteq> cps ''-0.0'')"
| "truthy (JStr s) = (s \<noteq> [])"
| "truthy (JArr xs) = (xs \<noteq> [])"
| "truthy (JObj kvs) = (kvs \<noteq> [])"

text \<open>Whether \<open>k\<close> occurs in \<open>s\<close> as a contiguous piece: \<open>k in s\<close> on two strings.\<close>

fun is_prefix :: "ustr \<Rightarrow> ustr \<Rightarrow> bool" where
  "is_prefix [] s = True"
| "is_prefix (k # ks) [] = False"
| "is_prefix (k # ks) (c # cs) = (k = c \<and> is_prefix ks cs)"

fun substring :: "ustr \<Rightarrow> ustr \<Rightarrow> bool" where
  "substring k [] = (k = [])"
| "substring k (c # cs) = (is_prefix k (c # cs) \<or> substring k cs)"

text \<open>
  \<open>k in data\<close> for a string \<open>k\<close>: a key of a dict, an element of a list, a piece of a
  string; a TypeError on a value that is not a container.
\<close>

fun py_in :: "ustr \<Rightarrow> json \<Rightarrow> exn + bool" where
  "py_in k (JObj kvs) = Inr (k \<in> set (map fst kvs))"
| "py_in k (JArr xs) = Inr (JStr k \<in> set xs)"
| "py_in k (JStr s) = Inr (substring k s)"
| "py_in k v = Inl TypeError"

text \<open>
  \<open>data[k]\<close> for a string \<open>k\<close>: the value of the key in a dict, KeyError when the key is
  missing, TypeError on every other value (a list or a string wants an integer index).
\<close>

fun subscript :: "json \<Rightarrow> ustr \<Rightarrow> exn + json" where
  "subscript (JObj kvs) k = (case map_of kvs k of None \<Rightarrow> Inl (KeyError k) | Some v \<Rightarrow> Inr v)"
| "subscript v k = Inl TypeError"

text \<open>\<open>props.get(k, default)\<close>: only a dict has the method.\<close>

fun dict_get :: "json \<Rightarrow> ustr \<Rightarrow> ustr \<Rightarrow> exn + json" where
  "dict_get (JObj kvs) k dflt = Inr (case map_of kvs k of None \<Rightarrow> JStr dflt | Some v \<Rightarrow> v)"
| "dict_get v k dflt = Inl AttributeError"

text \<open>The items a \<open>for\<close> loop or a comprehension draws from a value.\<close>

fun iterate :: "json \<Rightarrow> exn + json list" where
  "iterate (JArr xs) = Inr xs"
| "iterate (JStr s) = Inr (map (\<lambda>c. JStr [c]) s)"
| "iterate (JObj kvs) = Inr (map (\<lambda>kv. JStr (fst kv)) kvs)"
| "iterate v = Inl TypeError"

text \<open>
  \<open>periods[:5]\<close>: the first five items of a list, the first five characters of a string.
  A dict rejects the slice as a key (TypeError before Python 3.12, KeyError from 3.12 on;
  the model raises TypeError), and the other values cannot be subscripted.
\<close>

fun slice5 :: "json \<Rightarrow> exn + json" where
  "slice5 (JArr xs) = Inr (JArr (take 5 xs))"
| "slice5 (JStr s) = Inr (JStr (take 5 s))"
| "slice5 v = Inl TypeError"

text \<open>
  \<open>str(v)\<close>, as an f-string formats a value. Decimal digits for an int, the \<open>repr\<close> for
  a float, the string itself for a str. For a list or a dict \<open>str\<close> is the \<open>repr\<close>, which
  quotes and escapes the strings inside by the runtime's tables: a parameter.
\<close>

fun decimal :: "nat \<Rightarrow> ustr" where
  "decimal n = (if n < 10 then [48 + n] else decimal (n div 10) @ [48 + n mod 10])"

fun py_str :: "(json \<Rightarrow> ustr) \<Rightarrow> json \<Rightarrow> ustr" where
  "py_str rp JNull = cps ''None''"
| "py_str rp (JBool b) = (if b then cps ''True'' else cps ''False'')"
| "py_str rp (JInt i) = (if i < 0 then cps ''-'' @ decimal (nat (- i)) else decimal (nat i))"
| "py_str rp (JFloat r) = r"
| "py_str rp (JStr s) = s"
| "py_str rp v = rp v"

section \<open>weather.py: the network tools\<close>

definition NWS_API_BASE :: ustr where
  "NWS_API_BASE = cps ''https://api.weather.gov''"

definition USER_AGENT :: ustr where
  "USER_AGENT = cps ''weather-app/1.0''"

text \<open>
  What the three statements inside the \<open>try\<close> of \<open>make_nws_request\<close> can do.
  \<open>client.get\<close> either raises (a timeout, a connection error) or yields a response with
  a status code; \<open>raise_for_status\<close> raises unless the status is 2xx; \<open>response.json()\<close>
  yields the decoded body or raises when the body is not JSON (\<open>None\<close> below).
  The network is a state \<open>'w\<close> that every request may change.
\<close>

datatype http_outcome = Request_Failed | Response nat "json option"

type_synonym 'w http = "ustr \<Rightarrow> (ustr \<times> ustr) list \<Rightarrow> nat \<Rightarrow> 'w \<Rightarrow> http_outcome \<times> 'w"

text \<open>
  \<open>make_nws_request\<close> returns the decoded body, or \<open>None\<close> (\<open>JNull\<close>) on any exception.
  The URL that \<open>get_forecast\<close> passes on comes out of a payload; when it is not a string,
  \<open>client.get\<close> raises before anything is sent, inside the \<open>try\<close>.
\<close>

definition headers :: "(ustr \<times> ustr) list" where
  "headers = [(cps ''User-Agent'', USER_AGENT), (cps ''Accept'', cps ''application/geo+json'')]"

definition make_nws_request :: "'w http \<Rightarrow> json \<Rightarrow> 'w \<Rightarrow> json \<times> 'w" where
  "make_nws_request http_get url w =
     (case url of
        JStr u \<Rightarrow>
          (case http_get u headers 30 w of
             (Request_Failed, w') \<Rightarrow> (JNull, w')
           | (Response status body, w') \<Rightarrow>
               if 200 \<le> status \<and> status \<le> 299
               then (case body of None \<Rightarrow> (JNull, w') | Some v \<Rightarrow> (v, w'))
               else (JNull, w'))
      | _ \<Rightarrow> (JNull, w))"

text \<open>
  The outcomes that count as a failed fetch: the request raised (a timeout or another
  transport error), the status is not 2xx, or the body is not JSON.
\<close>

definition fetch_failed :: "http_outcome \<Rightarrow> bool" where
  "fetch_failed out =
     (case out of
        Request_Failed \<Rightarrow> True
      | Response status body \<Rightarrow> status < 200 \<or> 299 < status \<or> body = None)"

definition format_alert :: "(json \<Rightarrow> ustr) \<Rightarrow> json \<Rightarrow> exn + ustr" where
  "format_alert rp feature =
     ebind (subscript feature (cps ''properties'')) (\<lambda>props.
     ebind (dict_get props (cps ''event'') (cps ''Unknown'')) (\<lambda>event.
     ebind (dict_get props (cps ''areaDesc'') (cps ''Unknown'')) (\<lambda>area.
     ebind (dict_get props (cps ''severity'') (cps ''Unknown'')) (\<lambda>severity.
     ebind (dict_get props (cps ''description'') (cps ''No description available'')) (\<lambda>descr.
     ebind (dict_get props (cps ''instruction'') (cps ''No specific instructions provided''))
       (\<lambda>instruction.
     Inr ([10] @ cps ''Event: '' @ py_str rp event @ [10]
          @ cps ''Area: '' @ py_str rp area @ [10]
          @ cps ''Severity: '' @ py_str rp severity @ [10]
          @ cps ''Description: '' @ py_str rp descr @ [10]
          @ cps ''Instructions: '' @ py_str rp instruction @ [10])))))))"

definition alerts_unavailable :: ustr where
  "alerts_unavailable = cps ''Unable to fetch alerts or no alerts found.''"

definition no_active_alerts :: ustr where
  "no_active_alerts = cps ''No active alerts for this state.''"

definition alerts_url :: "ustr \<Rightarrow> ustr" where
  "alerts_url state = NWS_API_BASE @ cps ''/alerts/active/area/'' @ state"

definition get_alerts :: "'w http \<Rightarrow> (json \<Rightarrow> ustr) \<Rightarrow> ustr \<Rightarrow> 'w \<Rightarrow> (exn + ustr) \<times> 'w" where
  "get_alerts http_get rp state w =
     (let url = alerts_url state in
      case make_nws_request http_get (JStr url) w of (data, w') \<Rightarrow>
        (if \<not> truthy data then Inr alerts_unavailable
         else ebind (py_in (cps ''features'') data) (\<lambda>present.
           if \<not> present then Inr alerts_unavailable
           else ebind (subscript data (cps ''features'')) (\<lambda>features.
             if \<not> truthy features then Inr no_active_alerts
             else ebind (iterate features) (\<lambda>items.
               ebind (map_exn (format_alert rp) items) (\<lambda>alerts.
               Inr (join ([10] @ cps ''---'' @ [10]) alerts))))),
         w'))"

text \<open>The block of one period; 176 is the degree sign.\<close>

definition format_period :: "(json \<Rightarrow> ustr) \<Rightarrow> json \<Rightarrow> exn + ustr" where
  "format_period rp period =
     ebind (subscript period (cps ''name'')) (\<lambda>name.
     ebind (subscript period (cps ''temperature'')) (\<lambda>temperature.
     ebind (subscript period (cps ''temperatureUnit'')) (\<lambda>unit.
     ebind (subscript period (cps ''windSpeed'')) (\<lambda>speed.
     ebind (subscript period (cps ''windDirection'')) (\<lambda>direction.
     ebind (subscript period (cps ''detailedForecast'')) (\<lambda>detailed.
     Inr ([10] @ py_str rp name @ cps '':'' @ [10]
          @ cps ''Temperature: '' @ py_str rp temperature @ [176] @ py_str rp unit @ [10]
          @ cps ''Wind: '' @ py_str rp speed @ cps '' '' @ py_str rp direction @ [10]
          @ cps ''Forecast: '' @ py_str rp detailed @ [10])))))))"

definition forecast_unavailable :: ustr where
  "forecast_unavailable = cps ''Unable to fetch forecast data for this location.''"

definition detailed_unavailable :: ustr where
  "detailed_unavailable = cps ''Unable to fetch detailed forecast.''"

definition points_url :: "pyfloat \<Rightarrow> pyfloat \<Rightarrow> ustr" where
  "points_url latitude longitude = NWS_API_BASE @ cps ''/points/'' @ latitude @ cps '','' @ longitude"

definition get_forecast ::
  "'w http \<Rightarrow> (json \<Rightarrow> ustr) \<Rightarrow> pyfloat \<Rightarrow> pyfloat \<Rightarrow> 'w \<Rightarrow> (exn + ustr) \<times> 'w" where
  "get_forecast http_get rp latitude longitude w =
     (case make_nws_request http_get (JStr (points_url latitude longitude)) w of
        (points_data, w1) \<Rightarrow>
        if \<not> truthy points_data then (Inr forecast_unavailable, w1)
        else
          (case ebind (subscript points_data (cps ''properties''))
                  (\<lambda>props. subscript props (cps ''forecast'')) of
             Inl e \<Rightarrow> (Inl e, w1)
           | Inr forecast_url \<Rightarrow>
               (case make_nws_request http_get forecast_url w1 of (forecast_data, w2) \<Rightarrow>
                  (if \<not> truthy forecast_data then Inr detailed_unavailable
                   else ebind (subscript forecast_data (cps ''properties'')) (\<lambda>props.
                        ebind (subscript props (cps ''periods'')) (\<lambda>periods.
                        ebind (slice5 periods) (\<lambda>shown.
                        ebind (iterate shown) (\<lambda>items.
                        ebind (map_exn (format_period rp) items) (\<lambda>forecasts.
                        Inr (join ([10] @ cps ''---'' @ [10]) forecasts)))))),
                   w2))))"

text \<open>
  A network for concrete runs: it answers every request with the outcome \<open>out\<close>, except
  a request to \<open>special\<close>, which it answers with \<open>out'\<close>. The world counts the requests.
\<close>

definition sample_http :: "http_outcome \<Rightarrow> ustr \<Rightarrow> http_outcome \<Rightarrow> nat http" where
  "sample_http out special out' = (\<lambda>url hs timeout w. (if url = special then out' else out, Suc w))"

text \<open>Payloads for concrete runs: a points payload, a forecast payload, a period.\<close>

definition sample_points :: "ustr \<Rightarrow> json" where
  "sample_points u = JObj [(cps ''properties'', JObj [(cps ''forecast'', JStr u)])]"

definition sample_forecast :: "json list \<Rightarrow> json" where
  "sample_forecast ps = JObj [(cps ''properties'', JObj [(cps ''periods'', JArr ps)])]"

definition sample_period :: "ustr \<Rightarrow> json" where
  "sample_period n =
     JObj [(cps ''name'', JStr n), (cps ''temperature'', JInt 70),
           (cps ''temperatureUnit'', JStr (cps ''F'')), (cps ''windSpeed'', JStr (cps ''5 mph'')),
           (cps ''windDirection'', JStr (cps ''N'')), (cps ''detailedForecast'', JStr (cps ''Sunny''))]"

section \<open>client.py: the chat orchestrator\<close>

text \<open>
  A tool call of an assistant message (\<open>tool_call.id\<close>, \<open>tool_call.function.name\<close>,
  \<open>tool_call.function.arguments\<close>) and the two fields of an assistant message that
  \<open>process_query\<close> reads. Both fields may be \<open>None\<close>.
\<close>

record tool_call =
  tc_id :: ustr
  tc_name :: ustr
  tc_arguments :: ustr

record assistant_message =
  content :: "ustr option"
  tool_calls :: "tool_call list option"

text \<open>
  An entry of \<open>messages\<close>: the user's dictionary, the assistant message object, or the
  dictionary with role \<open>tool\<close> (its \<open>tool_call_id\<close>, \<open>name\<close> and \<open>content\<close>). The
  content a tool returns has a type of the session library, \<open>'c\<close>.
\<close>

datatype 'c message =
  User ustr
| Assistant assistant_message
| Tool ustr ustr 'c

text \<open>
  A tool as \<open>list_tools\<close> describes it, the dictionary that \<open>available_tools\<close> holds
  for it (name, description, input schema), and the entry of \<open>tools=\<close> built from that
  dictionary at every model call.
\<close>

record 's tool =
  name :: ustr
  description :: ustr
  inputSchema :: 's

record 's function_tool =
  fn_name :: ustr
  fn_description :: ustr
  fn_parameters :: 's

definition tool_dicts :: "'s tool list \<Rightarrow> (ustr \<times> ustr \<times> 's) list" where
  "tool_dicts ts = map (\<lambda>t. (name t, description t, inputSchema t)) ts"

definition function_tools :: "(ustr \<times> ustr \<times> 's) list \<Rightarrow> 's function_tool list" where
  "function_tools av =
     map (\<lambda>t. \<lparr>fn_name = fst t, fn_description = fst (snd t), fn_parameters = snd (snd t)\<rparr>) av"

text \<open>
  The mutable objects that the local names of \<open>process_query\<close> refer to when the loop
  runs: the lists \<open>messages\<close>, \<open>available_tools\<close> and \<open>final_text\<close>, and the list
  \<open>assistant_message.tool_calls\<close> that the \<open>for\<close> statement iterates over
  (\<open>call_list\<close>). An element of \<open>final_text\<close> is the content of a message, which may
  be \<open>None\<close>. Inside the loop the name \<open>tool_call\<close> refers to one more object; a
  frame is the locals together with that object.
\<close>

record ('c, 's) locals =
  messages :: "'c message list"
  available_tools :: "(ustr \<times> ustr \<times> 's) list"
  final_text :: "ustr option list"
  call_list :: "tool_call list"

type_synonym ('c, 's) frame = "('c, 's) locals \<times> tool_call"

text \<open>
  The collaborators of \<open>process_query\<close>, none of them in the repository. Each one may
  raise and may change the world \<open>'w\<close> (the server, the model API, the machine):
  \<open>self.session.list_tools()\<close>; \<open>self.openai.chat.completions.create\<close> followed by
  \<open>.choices[0].message\<close>, given the model name, the messages and the tools;
  \<open>self.session.call_tool\<close>; and \<open>str\<close> of the evaluated arguments, as the f-string
  of the trace line formats them.

  Python's builtin \<open>eval\<close>, called with the argument string alone, evaluates it in the
  frame of \<open>process_query\<close>. The expression cannot rebind a local name, but it can reach
  and change the objects the names refer to, so \<open>py_eval\<close> takes the frame and returns
  it, changed as the expression pleases, with the value (of type \<open>'v\<close>) and the world.
  The value itself is taken to be plain data.
\<close>

record ('w, 'v, 'c, 's) env =
  list_tools :: "'w \<Rightarrow> (exn + 's tool list) \<times> 'w"
  chat_create :: "ustr \<Rightarrow> 'c message list \<Rightarrow> 's function_tool list \<Rightarrow> 'w
                  \<Rightarrow> (exn + assistant_message) \<times> 'w"
  py_eval :: "ustr \<Rightarrow> ('c, 's) frame \<Rightarrow> 'w \<Rightarrow> (exn + 'v) \<times> ('c, 's) frame \<times> 'w"
  call_tool :: "ustr \<Rightarrow> 'v \<Rightarrow> 'w \<Rightarrow> (exn + 'c) \<times> 'w"
  str_of_args :: "'v \<Rightarrow> ustr"

definition trace_line :: "ustr \<Rightarrow> ustr \<Rightarrow> ustr" where
  "trace_line tool_name args = cps ''[Calling tool '' @ tool_name @ cps '' with args '' @ args @ cps '']''"

text \<open>
  \<open>for tool_call in assistant_message.tool_calls\<close>, lines 98 to 127, from the index
  \<open>i\<close> of the list iterator on. The iterator yields the element at its index as long as
  the index is below the present length of the list, so a list that grows during the loop
  prolongs it, and the loop need not end: the result is \<open>None\<close> when it does not.
  The body reads the name of the tool, evaluates the arguments, calls the tool, appends the
  trace line, appends the tool message (reading \<open>tool_call.id\<close> then), calls the model
  again and appends the content of its answer. All of it is inside the loop.
\<close>

partial_function (option) tool_loop ::
  "('w, 'v, 'c, 's) env \<Rightarrow> nat \<Rightarrow> ('c, 's) locals \<Rightarrow> 'w
   \<Rightarrow> ((exn + ('c, 's) locals) \<times> 'w) option" where
  "tool_loop e i st w =
     (if i < length (call_list st) then
        (let tool_call = call_list st ! i;
             tool_name = tc_name tool_call
         in case py_eval e (tc_arguments tool_call) (st, tool_call) w of
              (Inl err, fr, w1) \<Rightarrow> Some (Inl err, w1)
            | (Inr tool_args, fr, w1) \<Rightarrow>
                (case call_tool e tool_name tool_args w1 of
                   (Inl err, w2) \<Rightarrow> Some (Inl err, w2)
                 | (Inr result, w2) \<Rightarrow>
                     (let st1 = (fst fr)\<lparr>final_text := final_text (fst fr)
                                  @ [Some (trace_line tool_name (str_of_args e tool_args))]\<rparr>;
                          st2 = st1\<lparr>messages := messages st1
                                  @ [Tool (tc_id (snd fr)) tool_name result]\<rparr>
                      in case chat_create e (cps ''gpt-4-turbo-preview'') (messages st2)
                                (function_tools (available_tools st2)) w2 of
                           (Inl err, w3) \<Rightarrow> Some (Inl err, w3)
                         | (Inr response, w3) \<Rightarrow>
                             tool_loop e (Suc i)
                               (st2\<lparr>final_text := final_text st2 @ [content response]\<rparr>) w3)))
      else Some (Inr st, w))"

declare tool_loop.simps [code]

text \<open>
  \<open>process_query\<close> up to its \<open>return\<close>: the locals when the last statement is reached.
  \<open>if assistant_message.tool_calls:\<close> takes the \<open>else\<close> branch on \<open>None\<close> and on the
  empty list.
\<close>

definition run_query ::
  "('w, 'v, 'c, 's) env \<Rightarrow> ustr \<Rightarrow> 'w \<Rightarrow> ((exn + ('c, 's) locals) \<times> 'w) option" where
  "run_query e query w =
     (let messages0 = [User query] in
      case list_tools e w of
        (Inl err, w1) \<Rightarrow> Some (Inl err, w1)
      | (Inr ts, w1) \<Rightarrow>
          (let av = tool_dicts ts in
           case chat_create e (cps ''gpt-4o-mini'') messages0 (function_tools av) w1 of
             (Inl err, w2) \<Rightarrow> Some (Inl err, w2)
           | (Inr assistant_message, w2) \<Rightarrow>
               (let st = \<lparr>messages = messages0 @ [Assistant assistant_message],
                         available_tools = av, final_text = [],
                         call_list = (case tool_calls assistant_message of
                                        None \<Rightarrow> [] | Some tcs \<Rightarrow> tcs)\<rparr>
                in if call_list st \<noteq> [] then tool_loop e 0 st w2
                   else Some (Inr (st\<lparr>final_text :=
                                final_text st @ [content assistant_message]\<rparr>), w2))))"

text \<open>\<open>"\n".join(final_text)\<close>: a TypeError when an element is \<open>None\<close>.\<close>

fun all_strings :: "ustr option list \<Rightarrow> ustr list option" where
  "all_strings [] = Some []"
| "all_strings (None # xs) = None"
| "all_strings (Some x # xs) = (case all_strings xs of None \<Rightarrow> None | Some ys \<Rightarrow> Some (x # ys))"

definition join_lines :: "ustr option list \<Rightarrow> exn + ustr" where
  "join_lines xs = (case all_strings xs of None \<Rightarrow> Inl TypeError | Some ys \<Rightarrow> Inr (join [10] ys))"

text \<open>The result is \<open>None\<close> when the loop does not end, else the text or the exception.\<close>

definition process_query ::
  "('w, 'v, 'c, 's) env \<Rightarrow> ustr \<Rightarrow> 'w \<Rightarrow> ((exn + ustr) \<times> 'w) option" where
  "process_query e query w =
     (case run_query e query w of
        None \<Rightarrow> None
      | Some (Inl err, w') \<Rightarrow> Some (Inl err, w')
      | Some (Inr st, w') \<Rightarrow> Some (join_lines (final_text st), w'))"

subsection \<open>Observing the model calls\<close>

text \<open>
  To speak about the points where a model call is issued, the collaborators are wrapped:
  the wrapped \<open>chat_create\<close> behaves as the given one and writes the model name and the
  messages it was given to a log that travels with the world. The other collaborators
  leave the log alone.
\<close>

type_synonym 'c model_call = "ustr \<times> 'c message list"

definition recording ::
  "('w, 'v, 'c, 's) env \<Rightarrow> ('w \<times> 'c model_call list, 'v, 'c, 's) env" where
  "recording e =
     \<lparr>list_tools = (\<lambda>wl. case list_tools e (fst wl) of (r, w') \<Rightarrow> (r, (w', snd wl))),
      chat_create = (\<lambda>m msgs ts wl.
         case chat_create e m msgs ts (fst wl) of (r, w') \<Rightarrow> (r, (w', snd wl @ [(m, msgs)]))),
      py_eval = (\<lambda>s fr wl.
         case py_eval e s fr (fst wl) of (r, fr', w') \<Rightarrow> (r, fr', (w', snd wl))),
      call_tool = (\<lambda>n a wl. case call_tool e n a (fst wl) of (r, w') \<Rightarrow> (r, (w', snd wl))),
      str_of_args = str_of_args e\<rparr>"

text \<open>
  The tool messages that answer the calls \<open>tcs\<close> with the contents \<open>cs\<close>, and the
  identifiers of the tool messages of a conversation.
\<close>

definition answers :: "tool_call list \<Rightarrow> 'c list \<Rightarrow> 'c message list" where
  "answers tcs cs = map (\<lambda>p. Tool (tc_id (fst p)) (tc_name (fst p)) (snd p)) (zip tcs cs)"

fun answered_ids :: "'c message list \<Rightarrow> ustr list" where
  "answered_ids [] = []"
| "answered_ids (Tool i n c # ms) = i # answered_ids ms"
| "answered_ids (m # ms) = answered_ids ms"

text \<open>
  An evaluator that leaves the frame as it found it, as a parser of serialized data does.
\<close>

definition leaves_frame :: "('w, 'v, 'c, 's) env \<Rightarrow> bool" where
  "leaves_frame e = (\<forall>s fr w. fst (snd (py_eval e s fr w)) = fr)"

text \<open>
  Collaborators for concrete runs. The world is what has been written to standard output.
  The model answers the first call (a conversation of one message) with \<open>first\<close> and
  every later call with the text \<open>done\<close>. The tool returns its name, and \<open>str\<close> of the
  empty dict is \<open>{}\<close>. The evaluator is Python's \<open>eval\<close> at the three argument
  strings of the runs:
  \<^item> \<open>{}\<close> evaluates to the empty dict;
  \<^item> \<open>print(1) or {}\<close> prints \<open>1\<close> and a newline and then evaluates to the empty
    dict, \<open>print\<close> returning \<open>None\<close>;
  \<^item> \<open>messages.append(messages[2]) or {}\<close> appends the third message to the list
    \<open>messages\<close> once more and then evaluates to the empty dict, \<open>append\<close> returning
    \<open>None\<close>; it raises an IndexError when the list has no third message.

  Every other string is taken to raise.
\<close>

definition sample_eval ::
  "ustr \<Rightarrow> (ustr, unit) frame \<Rightarrow> ustr \<Rightarrow> (exn + json) \<times> (ustr, unit) frame \<times> ustr" where
  "sample_eval s fr out =
     (if s = cps ''{}'' then (Inr (JObj []), fr, out)
      else if s = cps ''print(1) or {}'' then (Inr (JObj []), fr, out @ cps ''1'' @ [10])
      else if s = cps ''messages.append(messages[2]) or {}'' then
        (if 2 < length (messages (fst fr))
         then (Inr (JObj []),
               ((fst fr)\<lparr>messages := messages (fst fr) @ [messages (fst fr) ! 2]\<rparr>, snd fr), out)
         else (Inl (ExternalError (cps ''IndexError'')), fr, out))
      else (Inl (ExternalError (cps ''SyntaxError'')), fr, out))"

definition sample_env :: "assistant_message \<Rightarrow> (ustr, json, ustr, unit) env" where
  "sample_env first =
     \<lparr>list_tools = (\<lambda>w. (Inr [], w)),
      chat_create = (\<lambda>m msgs ts w.
         (Inr (if length msgs = 1 then first
               else \<lparr>content = Some (cps ''done''), tool_calls = None\<rparr>), w)),
      py_eval = sample_eval,
      call_tool = (\<lambda>n a w. (Inr n, w)),
      str_of_args = py_str (\<lambda>v. cps ''{}'')\<rparr>"

text \<open>
  A first answer of the model that asks for two tool calls, for concrete runs. The argument
  string of the second call is an expression that calls \<open>print\<close>, not a serialized
  structure.
\<close>

definition sample_calls :: "tool_call list" where
  "sample_calls =
     [\<lparr>tc_id = cps ''call_1'', tc_name = cps ''get_alerts'', tc_arguments = cps ''{}''\<rparr>,
      \<lparr>tc_id = cps ''call_2'', tc_name = cps ''get_forecast'',
       tc_arguments = cps ''print(1) or {}''\<rparr>]"

definition sample_first :: assistant_message where
  "sample_first = \<lparr>content = None, tool_calls = Some sample_calls\<rparr>"

text \<open>
  Another first answer with two tool calls. The argument string of the second call is an
  expression that changes \<open>messages\<close>.
\<close>

definition tamper_calls :: "tool_call list" where
  "tamper_calls =
     [\<lparr>tc_id = cps ''call_1'', tc_name = cps ''get_alerts'', tc_arguments = cps ''{}''\<rparr>,
      \<lparr>tc_id = cps ''call_2'', tc_name = cps ''get_forecast'',
       tc_arguments = cps ''messages.append(messages[2]) or {}''\<rparr>]"

definition tamper_first :: assistant_message where
  "tamper_first = \<lparr>content = None, tool_calls = Some tamper_calls\<rparr>"

section \<open>Properties of the lookup tools\<close>

subsection \<open>Helper lemmas\<close>

lemma distinct_us_keys: "distinct (keys US_STATE_CAPITALS)"
  by (simp add: keys_def US_STATE_CAPITALS_def cps_def)

lemma distinct_sa_keys: "distinct (keys SOUTH_AMERICAN_CAPITALS)"
  by (simp add: keys_def SOUTH_AMERICAN_CAPITALS_def cps_def)

lemma join_contains: "x \<in> set xs \<Longrightarrow> \<exists>a b. join sep xs = a @ x @ b"
proof (induction sep xs rule: join.induct)
  case (1 sep) then show ?case by simp
next
  case (2 sep y)
  then have "join sep [y] = [] @ x @ []" by simp
  then show ?case by blast
next
  case (3 sep y z zs)
  show ?case
  proof (cases "x = y")
    case True
    then have "join sep (y # z # zs) = [] @ x @ (sep @ join sep (z # zs))" by simp
    then show ?thesis by blast
  next
    case False
    with 3 obtain a b where "join sep (z # zs) = a @ x @ b" by auto
    then have "join sep (y # z # zs) = (y @ sep @ a) @ x @ b" by simp
    then show ?thesis by blast
  qed
qed

lemma keys_dom: "set (keys d) = dom (map_of d)"
  by (simp add: keys_def dom_map_of_conv_image_fst)

lemma us_miss:
  assumes "map_of US_STATE_CAPITALS (upper db (strip s)) = None"
  shows "get_us_state_capital db s =
           cps ''Estado n'' @ [227] @ cps ''o encontrado. Estados dispon'' @ [237]
            @ cps ''veis: '' @ join (cps '', '') (sort (keys US_STATE_CAPITALS))"
  using assms by (simp add: get_us_state_capital_def)

lemma sa_miss:
  assumes "map_of SOUTH_AMERICAN_CAPITALS (title db (strip s)) = None"
  shows "get_south_american_capital db s =
          cps ''Pa'' @ [237] @ cps ''s n'' @ [227] @ cps ''o encontrado. Pa'' @ [237]
            @ cps ''ses dispon'' @ [237] @ cps ''veis: ''
            @ join (cps '', '') (sort (keys SOUTH_AMERICAN_CAPITALS))"
  using assms by (simp add: get_south_american_capital_def)

lemma sorted_keys_complete:
  "distinct (keys d) \<Longrightarrow> sorted (sort (keys d)) \<and> distinct (sort (keys d)) \<and> set (sort (keys d)) = dom (map_of d)"
  by (simp add: keys_dom)


lemma strip_padding:
  assumes p: "list_all is_space p" and q: "list_all is_space q"
  shows "strip (p @ s @ q) = strip s"
proof -
  have 1: "dropWhile is_space (p @ s @ q) = dropWhile is_space (s @ q)"
  proof (rule dropWhile_append2)
    fix x assume "x \<in> set p"
    then show "is_space x" using p by (simp add: list_all_iff)
  qed
  show ?thesis
  proof (cases "list_all is_space s")
    case True
    then have "dropWhile is_space (s @ q) = []" "dropWhile is_space s = []"
      using q by (simp_all add: list_all_iff dropWhile_eq_Nil_conv)
    then show ?thesis by (simp only: strip_def 1)
  next
    case False
    then obtain x where "x \<in> set s" "\<not> is_space x" by (auto simp: list_all_iff)
    then have "dropWhile is_space (s @ q) = dropWhile is_space s @ q"
      by (simp add: dropWhile_append1)
    moreover have "dropWhile is_space (rev q @ t) = dropWhile is_space t" for t
    proof (rule dropWhile_append2)
      fix x assume "x \<in> set (rev q)"
      then show "is_space x" using q by (simp add: list_all_iff)
    qed
    ultimately show ?thesis by (simp only: strip_def 1 rev_append)
  qed
qed

lemma is_space_ascii_lower: "is_space (ascii_lower c) = is_space c"
  by (auto simp: is_space_def ascii_lower_def)

lemma is_space_ascii_upper: "is_space (ascii_upper c) = is_space c"
  by (auto simp: is_space_def ascii_upper_def)

lemma strip_map:
  assumes "\<And>c. is_space (f c) = is_space c"
  shows "strip (map f s) = map f (strip s)"
proof -
  have f: "is_space \<circ> f = is_space" using assms by (simp add: fun_eq_iff)
  have d: "dropWhile is_space (map f t) = map f (dropWhile is_space t)" for t
    by (simp add: dropWhile_map f)
  have "strip (map f s) = rev (dropWhile is_space (map f (rev (dropWhile is_space s))))"
    by (simp add: strip_def d rev_map)
  also have "\<dots> = map f (strip s)"
    by (simp only: d strip_def rev_map)
  finally show ?thesis .
qed

lemma upper_cp_ascii_lower: "upper_cp db (ascii_lower c) = upper_cp db c"
  by (auto simp: upper_cp_def ascii_lower_def ascii_upper_def)

lemma upper_cp_ascii_upper: "upper_cp db (ascii_upper c) = upper_cp db c"
  by (auto simp: upper_cp_def ascii_upper_def)

lemma upper_map_ascii_lower: "upper db (map ascii_lower s) = upper db s"
  by (simp add: upper_def comp_def upper_cp_ascii_lower)

lemma upper_map_ascii_upper: "upper db (map ascii_upper s) = upper db s"
  by (simp add: upper_def comp_def upper_cp_ascii_upper)

lemma us_same: "upper db (strip a) = upper db (strip b) \<Longrightarrow> get_us_state_capital db a = get_us_state_capital db b"
  by (simp add: get_us_state_capital_def)

lemma sa_same: "title db (strip a) = title db (strip b) \<Longrightarrow> get_south_american_capital db a = get_south_american_capital db b"
  by (simp add: get_south_american_capital_def)

lemma us_padding: "list_all is_space p \<Longrightarrow> list_all is_space q \<Longrightarrow> get_us_state_capital db (p @ s @ q) = get_us_state_capital db s"
  by (rule us_same) (simp add: strip_padding)

lemma sa_padding: "list_all is_space p \<Longrightarrow> list_all is_space q \<Longrightarrow> get_south_american_capital db (p @ s @ q) = get_south_american_capital db s"
  by (rule sa_same) (simp add: strip_padding)

lemma us_ascii_case: "get_us_state_capital db (map ascii_lower s) = get_us_state_capital db s"
  "get_us_state_capital db (map ascii_upper s) = get_us_state_capital db s"
  by (rule us_same, simp add: strip_map is_space_ascii_lower is_space_ascii_upper upper_map_ascii_lower upper_map_ascii_upper)+

lemma do_title_ascii_case:
  assumes "list_all (\<lambda>c. c < 128) cs" "\<And>c. c < 128 \<Longrightarrow> f c = ascii_lower c \<or> f c = ascii_upper c"
  shows "do_title db s' i prev (map f cs) = do_title db s i prev cs"
  using assms(1)
proof (induction cs arbitrary: i prev)
  case Nil then show ?case by simp
next
  case (Cons c cs)
  then have c: "c < 128" and rest: "list_all (\<lambda>c. c < 128) cs" by simp_all
  from assms(2) [OF c] have
    "f c < 128 \<and> ascii_lower (f c) = ascii_lower c \<and> ascii_upper (f c) = ascii_upper c \<and> ascii_alpha (f c) = ascii_alpha c"
    using c by (auto simp: ascii_lower_def ascii_upper_def ascii_alpha_def)
  then show ?case using c Cons.IH [OF rest]
    by (simp add: lower_at_def title_cp_def cased_def)
qed

lemma title_ascii_case:
  assumes "list_all (\<lambda>c. c < 128) s"
  shows "title db (map ascii_lower s) = title db s" "title db (map ascii_upper s) = title db s"
  using assms by (simp_all add: title_def do_title_ascii_case)

lemma all_ascii_strip: "list_all (\<lambda>c. c < 128) s \<Longrightarrow> list_all (\<lambda>c. c < 128) (strip s)"
proof -
  assume a: "list_all (\<lambda>c. c < 128) s"
  have "set (dropWhile is_space t) \<subseteq> set t" for t
    using set_dropWhileD by fastforce
  then have "set (strip s) \<subseteq> set s"
    unfolding strip_def by (metis set_rev subset_trans)
  with a show ?thesis by (auto simp: list_all_iff)
qed

lemma sa_ascii_case:
  assumes "list_all (\<lambda>c. c < 128) s"
  shows "get_south_american_capital db (map ascii_lower s) = get_south_american_capital db s"
    "get_south_american_capital db (map ascii_upper s) = get_south_american_capital db s"
  by (rule sa_same, simp add: strip_map is_space_ascii_lower is_space_ascii_upper title_ascii_case all_ascii_strip [OF assms])+

lemma strip_ca: "strip (cps '' ca '') = cps ''ca''"
  by (simp add: strip_def cps_def is_space_def)
lemma upper_ca: "upper db (cps ''ca'') = cps ''CA''"
  by (simp add: upper_def upper_cp_def ascii_upper_def cps_def)
lemma ca_padded: "get_us_state_capital db (cps '' ca '') = cps ''A capital de CA '' @ [233] @ cps '' Sacramento''"
  by (simp add: get_us_state_capital_def strip_ca upper_ca) (simp add: US_STATE_CAPITALS_def cps_def)
lemma ca_plain: "get_us_state_capital db (cps ''CA'') = cps ''A capital de CA '' @ [233] @ cps '' Sacramento''"
  by (simp add: get_us_state_capital_def strip_def upper_def upper_cp_def ascii_upper_def is_space_def US_STATE_CAPITALS_def cps_def)

subsection \<open>A miss reports the sorted keys\<close>

text \<open>
  C7. When the normalised input (\<open>strip\<close> then \<open>upper\<close> for the state tool, \<open>strip\<close>
  then \<open>title\<close> for the country tool) is not a key of the table, the tool returns the
  fixed message followed by the keys joined with a comma and a space. The keys listed are
  in ascending order of Python's string comparison, none is repeated, they are exactly the
  keys of the table, and so every key of the table occurs in the text.
\<close>

theorem lookup_miss_lists_sorted_keys:
  "(map_of US_STATE_CAPITALS (upper db (strip s)) = None \<longrightarrow>
      (\<exists>ks. get_us_state_capital db s =
               cps ''Estado n'' @ [227] @ cps ''o encontrado. Estados dispon'' @ [237]
                 @ cps ''veis: '' @ join (cps '', '') ks
           \<and> sorted ks \<and> distinct ks \<and> set ks = dom (map_of US_STATE_CAPITALS)
           \<and> (\<forall>k \<in> dom (map_of US_STATE_CAPITALS). \<exists>a b. get_us_state_capital db s = a @ k @ b)))
   \<and> (map_of SOUTH_AMERICAN_CAPITALS (title db (strip c)) = None \<longrightarrow>
      (\<exists>ks. get_south_american_capital db c =
               cps ''Pa'' @ [237] @ cps ''s n'' @ [227] @ cps ''o encontrado. Pa'' @ [237]
                 @ cps ''ses dispon'' @ [237] @ cps ''veis: '' @ join (cps '', '') ks
           \<and> sorted ks \<and> distinct ks \<and> set ks = dom (map_of SOUTH_AMERICAN_CAPITALS)
           \<and> (\<forall>k \<in> dom (map_of SOUTH_AMERICAN_CAPITALS). \<exists>a b. get_south_american_capital db c = a @ k @ b)))"
proof (intro conjI impI)
  assume miss: "map_of US_STATE_CAPITALS (upper db (strip s)) = None"
  let ?ks = "sort (keys US_STATE_CAPITALS)"
  let ?p = "cps ''Estado n'' @ [227] @ cps ''o encontrado. Estados dispon'' @ [237] @ cps ''veis: ''"
  have res: "get_us_state_capital db s = ?p @ join (cps '', '') ?ks"
    using us_miss [OF miss] by simp
  have props: "sorted ?ks \<and> distinct ?ks \<and> set ?ks = dom (map_of US_STATE_CAPITALS)"
    using sorted_keys_complete [OF distinct_us_keys] .
  have "\<exists>a b. get_us_state_capital db s = a @ k @ b" if "k \<in> dom (map_of US_STATE_CAPITALS)" for k
  proof -
    from that props have "k \<in> set ?ks" by simp
    then obtain a b where "join (cps '', '') ?ks = a @ k @ b" using join_contains by blast
    then have "get_us_state_capital db s = (?p @ a) @ k @ b" using res by simp
    then show ?thesis by blast
  qed
  with res props
  show "\<exists>ks. get_us_state_capital db s =
               cps ''Estado n'' @ [227] @ cps ''o encontrado. Estados dispon'' @ [237]
                 @ cps ''veis: '' @ join (cps '', '') ks
           \<and> sorted ks \<and> distinct ks \<and> set ks = dom (map_of US_STATE_CAPITALS)
           \<and> (\<forall>k \<in> dom (map_of US_STATE_CAPITALS). \<exists>a b. get_us_state_capital db s = a @ k @ b)"
    by (intro exI [of _ ?ks]) simp
next
  assume miss: "map_of SOUTH_AMERICAN_CAPITALS (title db (strip c)) = None"
  let ?ks = "sort (keys SOUTH_AMERICAN_CAPITALS)"
  let ?p = "cps ''Pa'' @ [237] @ cps ''s n'' @ [227] @ cps ''o encontrado. Pa'' @ [237]
                 @ cps ''ses dispon'' @ [237] @ cps ''veis: ''"
  have res: "get_south_american_capital db c = ?p @ join (cps '', '') ?ks"
    using sa_miss [OF miss] by simp
  have props: "sorted ?ks \<and> distinct ?ks \<and> set ?ks = dom (map_of SOUTH_AMERICAN_CAPITALS)"
    using sorted_keys_complete [OF distinct_sa_keys] .
  have "\<exists>a b. get_south_american_capital db c = a @ k @ b" if "k \<in> dom (map_of SOUTH_AMERICAN_CAPITALS)" for k
  proof -
    from that props have "k \<in> set ?ks" by simp
    then obtain a b where "join (cps '', '') ?ks = a @ k @ b" using join_contains by blast
    then have "get_south_american_capital db c = (?p @ a) @ k @ b" using res by simp
    then show ?thesis by blast
  qed
  with res props
  show "\<exists>ks. get_south_american_capital db c =
               cps ''Pa'' @ [237] @ cps ''s n'' @ [227] @ cps ''o encontrado. Pa'' @ [237]
                 @ cps ''ses dispon'' @ [237] @ cps ''veis: '' @ join (cps '', '') ks
           \<and> sorted ks \<and> distinct ks \<and> set ks = dom (map_of SOUTH_AMERICAN_CAPITALS)
           \<and> (\<forall>k \<in> dom (map_of SOUTH_AMERICAN_CAPITALS). \<exists>a b. get_south_american_capital db c = a @ k @ b)"
    by (intro exI [of _ ?ks]) simp
qed


lemma zz_miss: "map_of US_STATE_CAPITALS (upper plain_db (strip (cps ''zz''))) = None"
  by (simp add: strip_def upper_def upper_cp_def ascii_upper_def is_space_def US_STATE_CAPITALS_def cps_def)

lemma atlantis_miss: "map_of SOUTH_AMERICAN_CAPITALS (title plain_db (strip (cps ''atlantis''))) = None"
  by (simp add: strip_def title_def title_cp_def lower_at_def cased_def ascii_alpha_def ascii_lower_def ascii_upper_def is_space_def SOUTH_AMERICAN_CAPITALS_def cps_def)

theorem lookup_miss_lists_sorted_keys_witness:
  "map_of US_STATE_CAPITALS (upper plain_db (strip (cps ''zz''))) = None
   \<and> map_of SOUTH_AMERICAN_CAPITALS (title plain_db (strip (cps ''atlantis''))) = None
   \<and> (\<exists>ks. get_us_state_capital plain_db (cps ''zz'') =
               cps ''Estado n'' @ [227] @ cps ''o encontrado. Estados dispon'' @ [237]
                 @ cps ''veis: '' @ join (cps '', '') ks
           \<and> sorted ks \<and> set ks = dom (map_of US_STATE_CAPITALS))
   \<and> (\<exists>ks. get_south_american_capital plain_db (cps ''atlantis'') =
               cps ''Pa'' @ [237] @ cps ''s n'' @ [227] @ cps ''o encontrado. Pa'' @ [237]
                 @ cps ''ses dispon'' @ [237] @ cps ''veis: '' @ join (cps '', '') ks
           \<and> sorted ks \<and> set ks = dom (map_of SOUTH_AMERICAN_CAPITALS))"
  using lookup_miss_lists_sorted_keys [of plain_db "cps ''zz''" "cps ''atlantis''"] zz_miss atlantis_miss
  by blast

subsection \<open>Padding and letter case do not matter\<close>

text \<open>
  C8. Two inputs with the same normal form get the same result from either tool. In
  particular: white space around the input changes nothing; changing the case of ASCII
  letters changes nothing for the state tool, and nothing for the country tool on an input
  of ASCII characters; and the inputs \<open>" ca "\<close> and \<open>"CA"\<close> both give the sentence
  naming Sacramento.
\<close>

theorem lookup_tools_ignore_padding_and_case:
  "(upper db (strip a) = upper db (strip b)
      \<longrightarrow> get_us_state_capital db a = get_us_state_capital db b)
   \<and> (title db (strip c) = title db (strip d)
      \<longrightarrow> get_south_american_capital db c = get_south_american_capital db d)
   \<and> (list_all is_space p \<and> list_all is_space q
      \<longrightarrow> get_us_state_capital db (p @ s @ q) = get_us_state_capital db s
        \<and> get_south_american_capital db (p @ s @ q) = get_south_american_capital db s)
   \<and> get_us_state_capital db (map ascii_lower s) = get_us_state_capital db s
   \<and> get_us_state_capital db (map ascii_upper s) = get_us_state_capital db s
   \<and> (list_all (\<lambda>x. x < 128) t
      \<longrightarrow> get_south_american_capital db (map ascii_lower t) = get_south_american_capital db t
        \<and> get_south_american_capital db (map ascii_upper t) = get_south_american_capital db t)
   \<and> get_us_state_capital db (cps '' ca '') = get_us_state_capital db (cps ''CA'')
   \<and> get_us_state_capital db (cps ''CA'') = cps ''A capital de CA '' @ [233] @ cps '' Sacramento''"
  using us_same [of db a b] sa_same [of db c d] us_padding [of p q db s]
    sa_padding [of p q db s] us_ascii_case [of db s] sa_ascii_case [of t db]
    ca_padded [of db] ca_plain [of db]
  by simp

theorem lookup_tools_ignore_padding_and_case_witness:
  "upper plain_db (strip (cps ''ny '')) = upper plain_db (strip (cps '' Ny''))
   \<and> title plain_db (strip (cps ''PERU'')) = title plain_db (strip (cps '' peru''))
   \<and> list_all is_space (cps ''  '') \<and> list_all is_space [9, 10]
   \<and> list_all (\<lambda>x. x < 128) (cps ''Chile'')
   \<and> get_us_state_capital plain_db (cps ''ny '') = get_us_state_capital plain_db (cps '' Ny'')
   \<and> get_south_american_capital plain_db (cps ''PERU'')
       = get_south_american_capital plain_db (cps '' peru'')
   \<and> get_us_state_capital plain_db (cps ''  '' @ cps ''tx'' @ [9, 10])
       = get_us_state_capital plain_db (cps ''tx'')
   \<and> get_south_american_capital plain_db (map ascii_upper (cps ''Chile''))
       = get_south_american_capital plain_db (cps ''Chile'')"
proof -
  have h1: "upper plain_db (strip (cps ''ny '')) = upper plain_db (strip (cps '' Ny''))"
    by (simp add: strip_def upper_def upper_cp_def ascii_upper_def is_space_def cps_def)
  have h2: "title plain_db (strip (cps ''PERU'')) = title plain_db (strip (cps '' peru''))"
    by (simp add: strip_def title_def title_cp_def lower_at_def cased_def ascii_alpha_def
        ascii_lower_def ascii_upper_def is_space_def cps_def)
  have h3: "list_all is_space (cps ''  '') \<and> list_all is_space [9, 10]"
    by (simp add: is_space_def cps_def)
  have h4: "list_all (\<lambda>x. x < 128) (cps ''Chile'')"
    by (simp add: cps_def)
  show ?thesis
    using lookup_tools_ignore_padding_and_case
      [of plain_db "cps ''ny ''" "cps '' Ny''" "cps ''PERU''" "cps '' peru''"
          "cps ''  ''" "[9, 10]" "cps ''tx''" "cps ''Chile''"]
      h1 h2 h3 h4
    by blast
qed

section \<open>Properties of the network tools\<close>

subsection \<open>Helper lemmas\<close>

lemma failed_fetch_gives_None:
  assumes "http_get u headers 30 w = (out, w')" "fetch_failed out"
  shows "make_nws_request http_get (JStr u) w = (JNull, w')"
  using assms by (auto simp: make_nws_request_def fetch_failed_def split: http_outcome.splits option.splits)

lemma good_fetch_gives_body:
  assumes "http_get u headers 30 w = (Response status (Some v), w')" "200 \<le> status" "status \<le> 299"
  shows "make_nws_request http_get (JStr u) w = (v, w')"
  using assms by (simp add: make_nws_request_def)

lemma non_string_url_gives_None:
  assumes "\<forall>u. url \<noteq> JStr u"
  shows "make_nws_request http_get url w = (JNull, w)"
  using assms by (cases url) (auto simp: make_nws_request_def)

lemma get_alerts_no_data:
  assumes "make_nws_request http_get (JStr (alerts_url state)) w = (JNull, w')"
  shows "get_alerts http_get rp state w = (Inr alerts_unavailable, w')"
  using assms by (simp add: get_alerts_def)

lemma get_alerts_no_features:
  assumes "make_nws_request http_get (JStr (alerts_url state)) w = (JObj kvs, w')"
    "map_of kvs (cps ''features'') = None"
  shows "get_alerts http_get rp state w = (Inr alerts_unavailable, w')"
proof -
  have "cps ''features'' \<notin> fst ` set kvs" using assms(2) by (simp add: map_of_eq_None_iff)
  then show ?thesis using assms(1) by (simp add: get_alerts_def ebind_def)
qed

lemma get_alerts_empty_features:
  assumes "make_nws_request http_get (JStr (alerts_url state)) w = (JObj kvs, w')"
    "map_of kvs (cps ''features'') = Some (JArr [])"
  shows "get_alerts http_get rp state w = (Inr no_active_alerts, w')"
proof -
  have "cps ''features'' \<in> fst ` set kvs" using assms(2) by (metis map_of_eq_None_iff option.distinct(1))
  moreover have "kvs \<noteq> []" using assms(2) by auto
  ultimately show ?thesis using assms by (simp add: get_alerts_def ebind_def)
qed

lemma texts_differ: "no_active_alerts \<noteq> alerts_unavailable"
  by (simp add: no_active_alerts_def alerts_unavailable_def cps_def)

lemma get_forecast_no_points:
  assumes "make_nws_request http_get (JStr (points_url lat lon)) w = (JNull, w')"
  shows "get_forecast http_get rp lat lon w = (Inr forecast_unavailable, w')"
  using assms by (simp add: get_forecast_def)

lemma get_forecast_no_detail:
  assumes "make_nws_request http_get (JStr (points_url lat lon)) w = (pd, w1)" "truthy pd"
    "ebind (subscript pd (cps ''properties'')) (\<lambda>props. subscript props (cps ''forecast'')) = Inr url"
    "make_nws_request http_get url w1 = (JNull, w2)"
  shows "get_forecast http_get rp lat lon w = (Inr detailed_unavailable, w2)"
  using assms by (simp add: get_forecast_def)

lemma unable_prefixes:
  "is_prefix (cps ''Unable to fetch'') alerts_unavailable"
  "is_prefix (cps ''Unable to fetch'') forecast_unavailable"
  "is_prefix (cps ''Unable to fetch'') detailed_unavailable"
  by (simp_all add: alerts_unavailable_def forecast_unavailable_def detailed_unavailable_def cps_def)

lemma map_exn_Inr:
  "map_exn f xs = Inr ys \<Longrightarrow> length ys = length xs \<and> (\<forall>i < length xs. f (xs ! i) = Inr (ys ! i))"
proof (induction xs arbitrary: ys)
  case Nil then show ?case by simp
next
  case (Cons x xs)
  then obtain y ys' where y: "f x = Inr y" and r: "map_exn f xs = Inr ys'" and ys: "ys = y # ys'"
    by (auto split: sum.splits)
  from Cons.IH [OF r] have "length ys' = length xs" "\<forall>i < length xs. f (xs ! i) = Inr (ys' ! i)" by simp_all
  then show ?case using y ys by (auto simp: nth_Cons split: nat.splits)
qed

lemma map_exn_total:
  "(\<forall>x \<in> set xs. \<exists>y. f x = Inr y) \<Longrightarrow> \<exists>ys. map_exn f xs = Inr ys"
proof (induction xs)
  case Nil then show ?case by simp
next
  case (Cons x xs)
  then obtain y ys where "f x = Inr y" "map_exn f xs = Inr ys" by auto
  then show ?case by simp
qed

lemma get_forecast_periods:
  assumes "make_nws_request http_get (JStr (points_url lat lon)) w = (pd, w1)" "truthy pd"
    "ebind (subscript pd (cps ''properties'')) (\<lambda>props. subscript props (cps ''forecast'')) = Inr url"
    "make_nws_request http_get url w1 = (fd, w2)" "truthy fd"
    "ebind (subscript fd (cps ''properties'')) (\<lambda>props. subscript props (cps ''periods'')) = Inr (JArr ps)"
  shows "get_forecast http_get rp lat lon w =
           (ebind (map_exn (format_period rp) (take 5 ps)) (\<lambda>forecasts. Inr (join ([10] @ cps ''---'' @ [10]) forecasts)), w2)"
  using assms by (auto simp: get_forecast_def ebind_def split: sum.splits)

text \<open>
  A payload that is JSON but has another shape is not a failed fetch: \<open>get_forecast\<close>
  subscripts it without a check, and the KeyError goes to the caller.
\<close>

lemma forecast_payload_shape_is_not_checked:
  assumes "make_nws_request http_get (JStr (points_url lat lon)) w = (JObj [(k, v)], w1)"
    and "k \<noteq> cps ''properties''"
  shows "get_forecast http_get rp lat lon w = (Inl (KeyError (cps ''properties'')), w1)"
  using assms by (simp add: get_forecast_def ebind_def)

lemma points_url_not_f: "points_url (cps ''1.0'') (cps ''2.0'') \<noteq> cps ''f''"
  by (simp add: points_url_def NWS_API_BASE_def cps_def)

lemma sample_points_fetch:
  "make_nws_request (sample_http (Response 200 (Some (sample_points (cps ''f'')))) (cps ''f'') out)
      (JStr (points_url (cps ''1.0'') (cps ''2.0''))) 0 = (sample_points (cps ''f''), 1)"
  using points_url_not_f by (simp add: make_nws_request_def sample_http_def)

lemma sample_points_truthy: "truthy (sample_points u)"
  by (simp add: sample_points_def)

lemma sample_points_url:
  "ebind (subscript (sample_points u) (cps ''properties'')) (\<lambda>props. subscript props (cps ''forecast''))
     = Inr (JStr u)"
  by (simp add: sample_points_def ebind_def)

lemma format_sample_period:
  "format_period rp (sample_period n) =
     Inr ([10] @ n @ cps '':'' @ [10] @ cps ''Temperature: 70'' @ [176] @ cps ''F'' @ [10]
          @ cps ''Wind: 5 mph N'' @ [10] @ cps ''Forecast: Sunny'' @ [10])"
  by (simp add: format_period_def sample_period_def ebind_def cps_def)

lemma sample_forecast_fetch:
  "make_nws_request (sample_http out (cps ''f'') (Response 200 (Some (sample_forecast ps))))
      (JStr (cps ''f'')) w = (sample_forecast ps, Suc w)"
  by (simp add: make_nws_request_def sample_http_def)

lemma sample_forecast_periods:
  "truthy (sample_forecast ps) \<and>
   ebind (subscript (sample_forecast ps) (cps ''properties'')) (\<lambda>props. subscript props (cps ''periods''))
     = Inr (JArr ps)"
  by (simp add: sample_forecast_def ebind_def)

subsection \<open>A failed fetch becomes a text\<close>

text \<open>
  What the tools do turn into a text. A fetch fails when the request raises (a timeout),
  when the status is not 2xx, or when the body is not JSON. Whatever the input: when the
  fetch of \<open>get_alerts\<close> fails, when the first fetch of \<open>get_forecast\<close> fails, when
  its second fetch fails, or when the URL for the second fetch is not a string, the tool
  returns (and does not raise) a fixed text that starts with \<open>Unable to fetch\<close>.
\<close>

theorem network_tools_turn_failed_fetch_into_text:
  "(http_get (alerts_url state) headers 30 w = (out, w') \<and> fetch_failed out
      \<longrightarrow> get_alerts http_get rp state w = (Inr alerts_unavailable, w'))
   \<and> (http_get (points_url lat lon) headers 30 w = (out, w') \<and> fetch_failed out
      \<longrightarrow> get_forecast http_get rp lat lon w = (Inr forecast_unavailable, w'))
   \<and> (make_nws_request http_get (JStr (points_url lat lon)) w = (pd, w1) \<and> truthy pd
      \<and> ebind (subscript pd (cps ''properties'')) (\<lambda>props. subscript props (cps ''forecast''))
          = Inr (JStr u)
      \<and> http_get u headers 30 w1 = (out, w2) \<and> fetch_failed out
      \<longrightarrow> get_forecast http_get rp lat lon w = (Inr detailed_unavailable, w2))
   \<and> (make_nws_request http_get (JStr (points_url lat lon)) w = (pd, w1) \<and> truthy pd
      \<and> ebind (subscript pd (cps ''properties'')) (\<lambda>props. subscript props (cps ''forecast''))
          = Inr url
      \<and> (\<forall>u. url \<noteq> JStr u)
      \<longrightarrow> get_forecast http_get rp lat lon w = (Inr detailed_unavailable, w1))
   \<and> fetch_failed Request_Failed
   \<and> (status < 200 \<or> 299 < status \<longrightarrow> fetch_failed (Response status body))
   \<and> fetch_failed (Response status None)
   \<and> is_prefix (cps ''Unable to fetch'') alerts_unavailable
   \<and> is_prefix (cps ''Unable to fetch'') forecast_unavailable
   \<and> is_prefix (cps ''Unable to fetch'') detailed_unavailable"
proof (intro conjI impI)
  assume "http_get (alerts_url state) headers 30 w = (out, w') \<and> fetch_failed out"
  then have "make_nws_request http_get (JStr (alerts_url state)) w = (JNull, w')"
    by (simp add: failed_fetch_gives_None)
  then show "get_alerts http_get rp state w = (Inr alerts_unavailable, w')"
    by (rule get_alerts_no_data)
next
  assume "http_get (points_url lat lon) headers 30 w = (out, w') \<and> fetch_failed out"
  then have "make_nws_request http_get (JStr (points_url lat lon)) w = (JNull, w')"
    by (simp add: failed_fetch_gives_None)
  then show "get_forecast http_get rp lat lon w = (Inr forecast_unavailable, w')"
    by (rule get_forecast_no_points)
next
  assume h: "make_nws_request http_get (JStr (points_url lat lon)) w = (pd, w1) \<and> truthy pd
      \<and> ebind (subscript pd (cps ''properties'')) (\<lambda>props. subscript props (cps ''forecast''))
          = Inr (JStr u)
      \<and> http_get u headers 30 w1 = (out, w2) \<and> fetch_failed out"
  then have "make_nws_request http_get (JStr u) w1 = (JNull, w2)"
    by (simp add: failed_fetch_gives_None)
  with h show "get_forecast http_get rp lat lon w = (Inr detailed_unavailable, w2)"
    using get_forecast_no_detail [of http_get lat lon w pd w1 "JStr u" w2 rp] by blast
next
  assume h: "make_nws_request http_get (JStr (points_url lat lon)) w = (pd, w1) \<and> truthy pd
      \<and> ebind (subscript pd (cps ''properties'')) (\<lambda>props. subscript props (cps ''forecast''))
          = Inr url
      \<and> (\<forall>u. url \<noteq> JStr u)"
  then have "make_nws_request http_get url w1 = (JNull, w1)"
    by (simp add: non_string_url_gives_None)
  with h show "get_forecast http_get rp lat lon w = (Inr detailed_unavailable, w1)"
    using get_forecast_no_detail [of http_get lat lon w pd w1 url w1 rp] by blast
next
  show "fetch_failed Request_Failed" by (simp add: fetch_failed_def)
next
  assume "status < 200 \<or> 299 < status"
  then show "fetch_failed (Response status body)" by (auto simp: fetch_failed_def)
next
  show "fetch_failed (Response status None)" by (simp add: fetch_failed_def)
qed (rule unable_prefixes)+

theorem network_tools_turn_failed_fetch_into_text_witness:
  "get_alerts (sample_http Request_Failed [] Request_Failed) (\<lambda>v. []) (cps ''CA'') 0
      = (Inr alerts_unavailable, 1)
   \<and> get_forecast (sample_http (Response 404 None) [] Request_Failed) (\<lambda>v. [])
        (cps ''1.0'') (cps ''2.0'') 0 = (Inr forecast_unavailable, 1)
   \<and> get_forecast (sample_http (Response 200 (Some (sample_points (cps ''f'')))) (cps ''f'')
          (Response 200 None)) (\<lambda>v. []) (cps ''1.0'') (cps ''2.0'') 0
      = (Inr detailed_unavailable, 2)
   \<and> fetch_failed (Response 500 (Some JNull))"
proof -
  let ?h1 = "sample_http Request_Failed [] Request_Failed"
  let ?h2 = "sample_http (Response 404 None) [] Request_Failed"
  let ?h3 = "sample_http (Response 200 (Some (sample_points (cps ''f'')))) (cps ''f'') (Response 200 None)"
  have 1: "?h1 (alerts_url (cps ''CA'')) headers 30 0 = (Request_Failed, 1) \<and> fetch_failed Request_Failed"
    by (simp add: sample_http_def fetch_failed_def)
  have 2: "?h2 (points_url (cps ''1.0'') (cps ''2.0'')) headers 30 0 = (Response 404 None, 1)
           \<and> fetch_failed (Response 404 None)"
    by (simp add: sample_http_def fetch_failed_def points_url_def NWS_API_BASE_def cps_def)
  have "?h3 (cps ''f'') headers 30 1 = (Response 200 None, 2)"
    by (simp add: sample_http_def)
  moreover have "fetch_failed (Response 200 None)"
    by (simp add: fetch_failed_def)
  ultimately have 3: "make_nws_request ?h3 (JStr (points_url (cps ''1.0'') (cps ''2.0''))) 0
              = (sample_points (cps ''f''), 1)
           \<and> truthy (sample_points (cps ''f''))
           \<and> ebind (subscript (sample_points (cps ''f'')) (cps ''properties''))
                (\<lambda>props. subscript props (cps ''forecast'')) = Inr (JStr (cps ''f''))
           \<and> ?h3 (cps ''f'') headers 30 1 = (Response 200 None, 2)
           \<and> fetch_failed (Response 200 None)"
    using sample_points_fetch [of "Response 200 None"] sample_points_truthy [of "cps ''f''"]
      sample_points_url [of "cps ''f''"]
    by (intro conjI)
  have 4: "(500::nat) < 200 \<or> (299::nat) < 500" by simp
  have a: "get_alerts ?h1 (\<lambda>v. []) (cps ''CA'') 0 = (Inr alerts_unavailable, 1)"
    by (rule mp [OF network_tools_turn_failed_fetch_into_text
          [where http_get = ?h1 and state = "cps ''CA''" and w = 0 and out = Request_Failed
             and w' = 1, THEN conjunct1] 1])
  have b: "get_forecast ?h2 (\<lambda>v. []) (cps ''1.0'') (cps ''2.0'') 0 = (Inr forecast_unavailable, 1)"
    by (rule mp [OF network_tools_turn_failed_fetch_into_text
          [where http_get = ?h2 and lat = "cps ''1.0''" and lon = "cps ''2.0''" and w = 0
             and out = "Response 404 None" and w' = 1, THEN conjunct2, THEN conjunct1] 2])
  have c: "get_forecast ?h3 (\<lambda>v. []) (cps ''1.0'') (cps ''2.0'') 0 = (Inr detailed_unavailable, 2)"
    by (rule mp [OF network_tools_turn_failed_fetch_into_text
          [where http_get = ?h3 and lat = "cps ''1.0''" and lon = "cps ''2.0''" and w = 0
             and out = "Response 200 None" and pd = "sample_points (cps ''f'')" and ?w1.0 = 1
             and u = "cps ''f''" and ?w2.0 = 2,
           THEN conjunct2, THEN conjunct2, THEN conjunct1] 3])
  have d: "fetch_failed (Response 500 (Some JNull))"
    by (rule mp [OF network_tools_turn_failed_fetch_into_text
          [where status = 500 and body = "Some JNull",
           THEN conjunct2, THEN conjunct2, THEN conjunct2, THEN conjunct2, THEN conjunct2,
           THEN conjunct1] 4])
  show ?thesis by (intro conjI a b c d)
qed

subsection \<open>A payload of another shape\<close>

text \<open>
  C6, on payloads that arrive with status 200 and are JSON, but not of the expected shape.
  The claim asks that on a malformed response payload the tool returns the text and never
  raises. \<open>get_alerts\<close> checks for the key \<open>features\<close> and answers an object without
  it with the text (the last run below). Nothing else is checked: \<open>get_forecast\<close>
  raises a KeyError on a points payload or a forecast payload without \<open>properties\<close>,
  and \<open>get_alerts\<close> raises a KeyError on a feature without \<open>properties\<close>, an
  AttributeError on a feature whose \<open>properties\<close> is not an object, and a TypeError
  on a payload that is a number.
\<close>

theorem wrong_shape_payload_makes_the_network_tools_raise:
  "get_forecast
      (sample_http (Response 200 (Some (JObj [(cps ''detail'', JStr (cps ''x''))]))) []
         Request_Failed)
      (\<lambda>v. []) (cps ''1.0'') (cps ''2.0'') 0
     = (Inl (KeyError (cps ''properties'')), 1)
   \<and> get_forecast
      (sample_http (Response 200 (Some (sample_points (cps ''https://api.weather.gov/f''))))
         (cps ''https://api.weather.gov/f'')
         (Response 200 (Some (JObj [(cps ''detail'', JStr (cps ''x''))]))))
      (\<lambda>v. []) (cps ''1.0'') (cps ''2.0'') 0
     = (Inl (KeyError (cps ''properties'')), 2)
   \<and> get_alerts
      (sample_http (Response 200 (Some (JObj [(cps ''features'', JArr [JObj []])]))) []
         Request_Failed)
      (\<lambda>v. []) (cps ''CA'') 0
     = (Inl (KeyError (cps ''properties'')), 1)
   \<and> get_alerts
      (sample_http (Response 200 (Some (JObj [(cps ''features'',
           JArr [JObj [(cps ''properties'', JStr (cps ''x''))]])]))) [] Request_Failed)
      (\<lambda>v. []) (cps ''CA'') 0
     = (Inl AttributeError, 1)
   \<and> get_alerts (sample_http (Response 200 (Some (JInt 5))) [] Request_Failed)
      (\<lambda>v. []) (cps ''CA'') 0
     = (Inl TypeError, 1)
   \<and> get_alerts
      (sample_http (Response 200 (Some (JObj [(cps ''detail'', JStr (cps ''x''))]))) []
         Request_Failed)
      (\<lambda>v. []) (cps ''CA'') 0
     = (Inr alerts_unavailable, 1)"
  by (simp add: get_forecast_def get_alerts_def make_nws_request_def sample_http_def
      sample_points_def points_url_def alerts_url_def NWS_API_BASE_def ebind_def
      format_alert_def cps_def)

subsection \<open>The periods of a forecast\<close>

text \<open>
  C9. Let both fetches of \<open>get_forecast\<close> succeed and the forecast payload hold the
  list \<open>ps\<close> under \<open>properties\<close>, \<open>periods\<close>. A text that \<open>get_forecast\<close>
  returns is then the blocks of the first \<open>min 5 (length ps)\<close> periods, joined by the
  separator line: at most five blocks, block \<open>i\<close> being the format of period \<open>i\<close>.
  And the text is returned whenever each of the first five periods can be formatted.
\<close>

theorem forecast_shows_at_most_five_periods_in_order:
  assumes "make_nws_request http_get (JStr (points_url lat lon)) w = (pd, w1)" and "truthy pd"
    and "ebind (subscript pd (cps ''properties'')) (\<lambda>props. subscript props (cps ''forecast''))
          = Inr url"
    and "make_nws_request http_get url w1 = (fd, w2)" and "truthy fd"
    and "ebind (subscript fd (cps ''properties'')) (\<lambda>props. subscript props (cps ''periods''))
          = Inr (JArr ps)"
  shows "(get_forecast http_get rp lat lon w = (Inr res, w')
          \<longrightarrow> (\<exists>blocks. res = join ([10] @ cps ''---'' @ [10]) blocks
                \<and> length blocks \<le> 5 \<and> length blocks = min 5 (length ps)
                \<and> (\<forall>i < length blocks. format_period rp (ps ! i) = Inr (blocks ! i))))
       \<and> ((\<forall>p \<in> set (take 5 ps). \<exists>b. format_period rp p = Inr b)
          \<longrightarrow> (\<exists>res. get_forecast http_get rp lat lon w = (Inr res, w2)))"
proof -
  let ?sep = "[10] @ cps ''---'' @ [10]"
  have run: "get_forecast http_get rp lat lon w =
      (ebind (map_exn (format_period rp) (take 5 ps)) (\<lambda>forecasts. Inr (join ?sep forecasts)), w2)"
    using assms by (rule get_forecast_periods)
  have first: "\<exists>blocks. res = join ?sep blocks
                \<and> length blocks \<le> 5 \<and> length blocks = min 5 (length ps)
                \<and> (\<forall>i < length blocks. format_period rp (ps ! i) = Inr (blocks ! i))"
    if "get_forecast http_get rp lat lon w = (Inr res, w')"
  proof -
    from that run obtain blocks where
      m: "map_exn (format_period rp) (take 5 ps) = Inr blocks" and t: "res = join ?sep blocks"
      by (auto simp: ebind_def split: sum.splits)
    from map_exn_Inr [OF m] have
      len: "length blocks = length (take 5 ps)" and
      each: "\<forall>i < length (take 5 ps). format_period rp (take 5 ps ! i) = Inr (blocks ! i)"
      by simp_all
    from len have l5: "length blocks = min 5 (length ps)" by (simp add: min.commute)
    have "format_period rp (ps ! i) = Inr (blocks ! i)" if "i < length blocks" for i
      using each that len by simp
    with t l5 show ?thesis by auto
  qed
  have second: "\<exists>res. get_forecast http_get rp lat lon w = (Inr res, w2)"
    if "\<forall>p \<in> set (take 5 ps). \<exists>b. format_period rp p = Inr b"
  proof -
    from map_exn_total [OF that] obtain blocks where
      "map_exn (format_period rp) (take 5 ps) = Inr blocks" by blast
    with run show ?thesis by (simp add: ebind_def)
  qed
  from first second show ?thesis by blast
qed

theorem forecast_shows_at_most_five_periods_in_order_witness:
  "\<exists>res blocks.
     get_forecast
       (sample_http (Response 200 (Some (sample_points (cps ''f'')))) (cps ''f'')
          (Response 200 (Some (sample_forecast (map sample_period
             [cps ''a'', cps ''b'', cps ''c'', cps ''d'', cps ''e'', cps ''g''])))))
       (\<lambda>v. []) (cps ''1.0'') (cps ''2.0'') 0 = (Inr res, 2)
     \<and> res = join ([10] @ cps ''---'' @ [10]) blocks \<and> length blocks = 5
     \<and> format_period (\<lambda>v. []) (sample_period (cps ''a'')) = Inr (blocks ! 0)
     \<and> format_period (\<lambda>v. []) (sample_period (cps ''e'')) = Inr (blocks ! 4)"
proof -
  let ?ps = "map sample_period [cps ''a'', cps ''b'', cps ''c'', cps ''d'', cps ''e'', cps ''g'']"
  let ?h = "sample_http (Response 200 (Some (sample_points (cps ''f'')))) (cps ''f'')
          (Response 200 (Some (sample_forecast ?ps)))"
  let ?rp = "\<lambda>v::json. []::ustr"
  have f1: "make_nws_request ?h (JStr (points_url (cps ''1.0'') (cps ''2.0''))) 0
              = (sample_points (cps ''f''), 1)"
    by (rule sample_points_fetch)
  have f4: "make_nws_request ?h (JStr (cps ''f'')) 1 = (sample_forecast ?ps, 2)"
    using sample_forecast_fetch [of "Response 200 (Some (sample_points (cps ''f'')))" ?ps 1]
    by simp
  note T = forecast_shows_at_most_five_periods_in_order
    [where rp = ?rp, OF f1 sample_points_truthy sample_points_url f4
       conjunct1 [OF sample_forecast_periods] conjunct2 [OF sample_forecast_periods]]
  have "\<forall>p \<in> set (take 5 ?ps). \<exists>b. format_period ?rp p = Inr b"
    by (simp add: format_sample_period)
  with T [THEN conjunct2] obtain res where
    run: "get_forecast ?h ?rp (cps ''1.0'') (cps ''2.0'') 0 = (Inr res, 2)" by blast
  with T [where res = res and w' = 2, THEN conjunct1] obtain blocks where
    b: "res = join ([10] @ cps ''---'' @ [10]) blocks" "length blocks = min 5 (length ?ps)"
       "\<forall>i < length blocks. format_period ?rp (?ps ! i) = Inr (blocks ! i)" by blast
  from b(2) have len: "length blocks = 5" by simp
  have "(0::nat) < length blocks" "(4::nat) < length blocks" using len by simp_all
  with b(3) have "format_period ?rp (?ps ! 0) = Inr (blocks ! 0)"
    "format_period ?rp (?ps ! 4) = Inr (blocks ! 4)" by blast+
  then have "format_period ?rp (sample_period (cps ''a'')) = Inr (blocks ! 0)"
    "format_period ?rp (sample_period (cps ''e'')) = Inr (blocks ! 4)" by simp_all
  with run b(1) len show ?thesis by blast
qed

subsection \<open>An empty list of features\<close>

text \<open>
  C10. When the alerts request is answered with a 2xx status and a JSON object whose key
  \<open>features\<close> holds the empty list, \<open>get_alerts\<close> returns the text
  \<open>No active alerts for this state.\<close> When the fetch fails, or the object has no key
  \<open>features\<close>, it returns the other fixed text, and the two texts differ.
\<close>

theorem empty_features_reports_no_active_alerts:
  "(http_get (alerts_url state) headers 30 w = (Response status (Some (JObj kvs)), w')
      \<and> 200 \<le> status \<and> status \<le> 299 \<and> map_of kvs (cps ''features'') = Some (JArr [])
      \<longrightarrow> get_alerts http_get rp state w = (Inr no_active_alerts, w'))
   \<and> (http_get (alerts_url state) headers 30 w = (out, w') \<and> fetch_failed out
      \<longrightarrow> get_alerts http_get rp state w = (Inr alerts_unavailable, w'))
   \<and> (http_get (alerts_url state) headers 30 w = (Response status (Some (JObj kvs)), w')
      \<and> 200 \<le> status \<and> status \<le> 299 \<and> map_of kvs (cps ''features'') = None
      \<longrightarrow> get_alerts http_get rp state w = (Inr alerts_unavailable, w'))
   \<and> no_active_alerts = cps ''No active alerts for this state.''
   \<and> no_active_alerts \<noteq> alerts_unavailable"
proof (intro conjI impI)
  assume h: "http_get (alerts_url state) headers 30 w = (Response status (Some (JObj kvs)), w')
      \<and> 200 \<le> status \<and> status \<le> 299 \<and> map_of kvs (cps ''features'') = Some (JArr [])"
  then have "make_nws_request http_get (JStr (alerts_url state)) w = (JObj kvs, w')"
    by (simp add: good_fetch_gives_body)
  with h show "get_alerts http_get rp state w = (Inr no_active_alerts, w')"
    by (simp add: get_alerts_empty_features)
next
  assume "http_get (alerts_url state) headers 30 w = (out, w') \<and> fetch_failed out"
  then have "make_nws_request http_get (JStr (alerts_url state)) w = (JNull, w')"
    by (simp add: failed_fetch_gives_None)
  then show "get_alerts http_get rp state w = (Inr alerts_unavailable, w')"
    by (rule get_alerts_no_data)
next
  assume h: "http_get (alerts_url state) headers 30 w = (Response status (Some (JObj kvs)), w')
      \<and> 200 \<le> status \<and> status \<le> 299 \<and> map_of kvs (cps ''features'') = None"
  then have "make_nws_request http_get (JStr (alerts_url state)) w = (JObj kvs, w')"
    by (simp add: good_fetch_gives_body)
  with h show "get_alerts http_get rp state w = (Inr alerts_unavailable, w')"
    by (simp add: get_alerts_no_features)
next
  show "no_active_alerts = cps ''No active alerts for this state.''"
    by (simp add: no_active_alerts_def)
next
  show "no_active_alerts \<noteq> alerts_unavailable" by (rule texts_differ)
qed

theorem empty_features_reports_no_active_alerts_witness:
  "get_alerts (sample_http (Response 200 (Some (JObj [(cps ''features'', JArr [])]))) [] Request_Failed)
      (\<lambda>v. []) (cps ''CA'') 0 = (Inr (cps ''No active alerts for this state.''), 1)
   \<and> get_alerts (sample_http (Response 503 None) [] Request_Failed)
      (\<lambda>v. []) (cps ''CA'') 0 = (Inr alerts_unavailable, 1)
   \<and> get_alerts (sample_http (Response 200 (Some (JObj [(cps ''title'', JStr (cps ''x''))]))) [] Request_Failed)
      (\<lambda>v. []) (cps ''CA'') 0 = (Inr alerts_unavailable, 1)"
proof -
  have u: "alerts_url (cps ''CA'') \<noteq> []"
    by (simp add: alerts_url_def NWS_API_BASE_def cps_def)
  let ?h1 = "sample_http (Response 200 (Some (JObj [(cps ''features'', JArr [])]))) [] Request_Failed"
  let ?h2 = "sample_http (Response 503 None) [] Request_Failed"
  let ?h3 = "sample_http (Response 200 (Some (JObj [(cps ''title'', JStr (cps ''x''))]))) [] Request_Failed"
  have 1: "?h1 (alerts_url (cps ''CA'')) headers 30 0
            = (Response 200 (Some (JObj [(cps ''features'', JArr [])])), 1)
          \<and> (200::nat) \<le> 200 \<and> (200::nat) \<le> 299
          \<and> map_of [(cps ''features'', JArr [])] (cps ''features'') = Some (JArr [])"
    using u by (simp add: sample_http_def)
  have 2: "?h2 (alerts_url (cps ''CA'')) headers 30 0 = (Response 503 None, 1)
          \<and> fetch_failed (Response 503 None)"
    using u by (simp add: sample_http_def fetch_failed_def)
  have 3: "?h3 (alerts_url (cps ''CA'')) headers 30 0
            = (Response 200 (Some (JObj [(cps ''title'', JStr (cps ''x''))])), 1)
          \<and> (200::nat) \<le> 200 \<and> (200::nat) \<le> 299
          \<and> map_of [(cps ''title'', JStr (cps ''x''))] (cps ''features'') = None"
    using u by (simp add: sample_http_def cps_def)
  have a: "get_alerts ?h1 (\<lambda>v. []) (cps ''CA'') 0 = (Inr no_active_alerts, 1)"
    using empty_features_reports_no_active_alerts
        [of ?h1 "cps ''CA''" 0 200 "[(cps ''features'', JArr [])]" 1 "\<lambda>v. []" Request_Failed] 1
    by blast
  have b: "get_alerts ?h2 (\<lambda>v. []) (cps ''CA'') 0 = (Inr alerts_unavailable, 1)"
    using empty_features_reports_no_active_alerts
        [of ?h2 "cps ''CA''" 0 200 "[]" 1 "\<lambda>v. []" "Response 503 None"] 2
    by blast
  have c: "get_alerts ?h3 (\<lambda>v. []) (cps ''CA'') 0 = (Inr alerts_unavailable, 1)"
    using empty_features_reports_no_active_alerts
        [of ?h3 "cps ''CA''" 0 200 "[(cps ''title'', JStr (cps ''x''))]" 1 "\<lambda>v. []" Request_Failed] 3
    by blast
  show ?thesis
    unfolding a b c by (simp only: no_active_alerts_def simp_thms)
qed

section \<open>Properties of the chat orchestrator\<close>

subsection \<open>Helper lemmas\<close>

lemma answers_Cons: "answers (tc # tcs) (c # cs) = Tool (tc_id tc) (tc_name tc) c # answers tcs cs"
  by (simp add: answers_def)

lemma answers_Nil: "answers [] cs = []"
  by (simp add: answers_def)

lemma answered_ids_append: "answered_ids (xs @ ys) = answered_ids xs @ answered_ids ys"
  by (induction xs rule: answered_ids.induct) simp_all

lemma answered_ids_answers: "length cs = length tcs \<Longrightarrow> answered_ids (answers tcs cs) = map tc_id tcs"
proof (induction tcs arbitrary: cs)
  case Nil then show ?case by (simp add: answers_Nil)
next
  case (Cons tc tcs)
  then obtain c cs' where "cs = c # cs'" by (cases cs) auto
  with Cons show ?case by (simp add: answers_Cons)
qed

text \<open>The loop past the end of the list, and one completed iteration with an evaluator that
  leaves the frame alone.\<close>

lemma tool_loop_done: "\<not> i < length (call_list st) \<Longrightarrow> tool_loop e i st w = Some (Inr st, w)"
  by (subst tool_loop.simps) simp

lemma leaves_frameD: "leaves_frame e \<Longrightarrow> py_eval e s fr w = (r, fr', w') \<Longrightarrow> fr' = fr"
  unfolding leaves_frame_def by (metis fst_conv snd_conv)

lemma tool_loop_step:
  assumes lf: "leaves_frame e" and i: "i < length (call_list st)"
    and run: "tool_loop e i st w = Some (Inr st', w')"
  shows "\<exists>a w1 c w2 r w3.
           py_eval e (tc_arguments (call_list st ! i)) (st, call_list st ! i) w
             = (Inr a, (st, call_list st ! i), w1)
         \<and> call_tool e (tc_name (call_list st ! i)) a w1 = (Inr c, w2)
         \<and> chat_create e (cps ''gpt-4-turbo-preview'')
               (messages st @ [Tool (tc_id (call_list st ! i)) (tc_name (call_list st ! i)) c])
               (function_tools (available_tools st)) w2 = (Inr r, w3)
         \<and> tool_loop e (Suc i)
               (st\<lparr>messages := messages st
                      @ [Tool (tc_id (call_list st ! i)) (tc_name (call_list st ! i)) c],
                   final_text := final_text st
                      @ [Some (trace_line (tc_name (call_list st ! i)) (str_of_args e a)),
                         content r]\<rparr>) w3
             = Some (Inr st', w')"
proof -
  let ?tc = "call_list st ! i"
  obtain ra fr w1 where ev0: "py_eval e (tc_arguments ?tc) (st, ?tc) w = (ra, fr, w1)"
    by (cases "py_eval e (tc_arguments ?tc) (st, ?tc) w") auto
  from leaves_frameD [OF lf ev0] have fr: "fr = (st, ?tc)" .
  note ev = ev0 [unfolded fr]
  from run have run': "(let tool_call = ?tc; tool_name = tc_name tool_call
         in case py_eval e (tc_arguments tool_call) (st, tool_call) w of
              (Inl err, fr, w1) \<Rightarrow> Some (Inl err, w1)
            | (Inr tool_args, fr, w1) \<Rightarrow>
                (case call_tool e tool_name tool_args w1 of
                   (Inl err, w2) \<Rightarrow> Some (Inl err, w2)
                 | (Inr result, w2) \<Rightarrow>
                     (let st1 = (fst fr)\<lparr>final_text := final_text (fst fr)
                                  @ [Some (trace_line tool_name (str_of_args e tool_args))]\<rparr>;
                          st2 = st1\<lparr>messages := messages st1
                                  @ [Tool (tc_id (snd fr)) tool_name result]\<rparr>
                      in case chat_create e (cps ''gpt-4-turbo-preview'') (messages st2)
                                (function_tools (available_tools st2)) w2 of
                           (Inl err, w3) \<Rightarrow> Some (Inl err, w3)
                         | (Inr response, w3) \<Rightarrow>
                             tool_loop e (Suc i)
                               (st2\<lparr>final_text := final_text st2 @ [content response]\<rparr>) w3)))
        = Some (Inr st', w')"
    using i by (subst (asm) tool_loop.simps) simp
  from run' ev obtain a where a: "ra = Inr a" by (cases ra) (simp_all add: Let_def)
  obtain rc w2 where ct: "call_tool e (tc_name ?tc) a w1 = (rc, w2)"
    by (cases "call_tool e (tc_name ?tc) a w1")
  with run' ev a obtain c where c: "rc = Inr c" by (cases rc) (simp_all add: Let_def)
  obtain rr w3 where cc: "chat_create e (cps ''gpt-4-turbo-preview'')
               (messages st @ [Tool (tc_id ?tc) (tc_name ?tc) c])
               (function_tools (available_tools st)) w2 = (rr, w3)"
    by (cases "chat_create e (cps ''gpt-4-turbo-preview'')
               (messages st @ [Tool (tc_id ?tc) (tc_name ?tc) c])
               (function_tools (available_tools st)) w2")
  with run' ev a ct c obtain r where r: "rr = Inr r" by (cases rr) (simp_all add: Let_def)
  from run' ev a ct c cc r show ?thesis by (simp add: Let_def)
qed

text \<open>With such an evaluator the loop ends.\<close>

lemma tool_loop_ends:
  assumes lf: "leaves_frame e"
  shows "\<exists>r. tool_loop e i st w = Some r"
proof (induction "length (call_list st) - i" arbitrary: i st w)
  case 0
  then have "\<not> i < length (call_list st)" by simp
  then show ?case by (simp add: tool_loop_done)
next
  case (Suc n)
  then have i: "i < length (call_list st)" by simp
  let ?tc = "call_list st ! i"
  obtain ra fr w1 where ev0: "py_eval e (tc_arguments ?tc) (st, ?tc) w = (ra, fr, w1)"
    by (cases "py_eval e (tc_arguments ?tc) (st, ?tc) w") auto
  from leaves_frameD [OF lf ev0] have fr: "fr = (st, ?tc)" .
  note ev = ev0 [unfolded fr]
  show ?case
  proof (cases ra)
    case (Inl err)
    with ev i show ?thesis by (subst tool_loop.simps) simp
  next
    case (Inr a)
    obtain rc w2 where ct: "call_tool e (tc_name ?tc) a w1 = (rc, w2)"
      by (cases "call_tool e (tc_name ?tc) a w1")
    show ?thesis
    proof (cases rc)
      case (Inl err)
      with ev Inr ct i show ?thesis by (subst tool_loop.simps) simp
    next
      case c: (Inr c)
      obtain rr w3 where cc: "chat_create e (cps ''gpt-4-turbo-preview'')
               (messages st @ [Tool (tc_id ?tc) (tc_name ?tc) c])
               (function_tools (available_tools st)) w2 = (rr, w3)"
        by (cases "chat_create e (cps ''gpt-4-turbo-preview'')
               (messages st @ [Tool (tc_id ?tc) (tc_name ?tc) c])
               (function_tools (available_tools st)) w2")
      show ?thesis
      proof (cases rr)
        case (Inl err)
        with ev Inr ct c cc i show ?thesis by (subst tool_loop.simps) (simp add: Let_def)
      next
        case r: (Inr r)
        let ?st = "st\<lparr>messages := messages st @ [Tool (tc_id ?tc) (tc_name ?tc) c],
                   final_text := final_text st
                      @ [Some (trace_line (tc_name ?tc) (str_of_args e a)), content r]\<rparr>"
        have "n = length (call_list ?st) - Suc i" using Suc.hyps(2) by simp
        from Suc.hyps(1) [OF this] obtain res where "tool_loop e (Suc i) ?st w3 = Some res"
          by blast
        with ev Inr ct c cc r i show ?thesis by (subst tool_loop.simps) (simp add: Let_def)
      qed
    qed
  qed
qed

text \<open>With such an evaluator a completed loop has appended one tool message per call from
  the index on, and has left the list of calls as it was.\<close>

lemma tool_loop_messages:
  assumes lf: "leaves_frame e"
  shows "tool_loop e i st w = Some (Inr st', w') \<Longrightarrow>
   \<exists>cs. length cs = length (call_list st) - i
      \<and> messages st' = messages st @ answers (drop i (call_list st)) cs
      \<and> call_list st' = call_list st"
proof (induction "length (call_list st) - i" arbitrary: i st w)
  case 0
  then have "\<not> i < length (call_list st)" by simp
  with 0 show ?case by (simp add: tool_loop_done answers_Nil)
next
  case (Suc n)
  then have i: "i < length (call_list st)" by simp
  let ?tc = "call_list st ! i"
  from tool_loop_step [OF lf i Suc.prems] obtain a c and r :: assistant_message and w3 where
    rest: "tool_loop e (Suc i)
               (st\<lparr>messages := messages st @ [Tool (tc_id ?tc) (tc_name ?tc) c],
                   final_text := final_text st
                      @ [Some (trace_line (tc_name ?tc) (str_of_args e a)), content r]\<rparr>) w3
             = Some (Inr st', w')" by auto
  let ?st = "st\<lparr>messages := messages st @ [Tool (tc_id ?tc) (tc_name ?tc) c],
                   final_text := final_text st
                      @ [Some (trace_line (tc_name ?tc) (str_of_args e a)), content r]\<rparr>"
  have n: "n = length (call_list ?st) - Suc i" using Suc.hyps(2) by simp
  from Suc.hyps(1) [OF n rest] obtain cs where
    len: "length cs = length (call_list st) - Suc i" and
    msgs: "messages st' = (messages st @ [Tool (tc_id ?tc) (tc_name ?tc) c])
              @ answers (drop (Suc i) (call_list st)) cs" and
    same: "call_list st' = call_list st" by auto
  have d: "drop i (call_list st) = ?tc # drop (Suc i) (call_list st)"
    using i by (simp add: Cons_nth_drop_Suc)
  from len msgs same i have
    "length (c # cs) = length (call_list st) - i
     \<and> messages st' = messages st @ answers (drop i (call_list st)) (c # cs)
     \<and> call_list st' = call_list st"
    by (simp add: d answers_Cons)
  then show ?case by blast
qed

text \<open>The branches of \<open>run_query\<close> after the first answer of the model.\<close>

lemma run_query_with_calls:
  assumes "list_tools e w = (Inr ts, w1)"
    and "chat_create e (cps ''gpt-4o-mini'') [User query] (function_tools (tool_dicts ts)) w1
          = (Inr msg, w2)"
    and "tool_calls msg = Some tcs" and "tcs \<noteq> []"
  shows "run_query e query w =
           tool_loop e 0
             \<lparr>messages = [User query, Assistant msg], available_tools = tool_dicts ts,
              final_text = [], call_list = tcs\<rparr> w2"
  using assms by (simp add: run_query_def Let_def)

lemma run_query_without_calls:
  assumes "list_tools e w = (Inr ts, w1)"
    and "chat_create e (cps ''gpt-4o-mini'') [User query] (function_tools (tool_dicts ts)) w1
          = (Inr msg, w2)"
    and "tool_calls msg = None \<or> tool_calls msg = Some []"
  shows "run_query e query w =
           Some (Inr \<lparr>messages = [User query, Assistant msg], available_tools = tool_dicts ts,
                      final_text = [content msg], call_list = []\<rparr>, w2)"
  using assms by (auto simp: run_query_def Let_def)

text \<open>
  With an evaluator that leaves the frame alone, a query whose first answer asks for tool
  calls ends, and when it reaches the \<open>return\<close> the conversation is the user message, the
  assistant message and one tool message per call, in call order.
\<close>

lemma run_query_leaves_frame:
  assumes "leaves_frame e" and "list_tools e w = (Inr ts, w1)"
    and "chat_create e (cps ''gpt-4o-mini'') [User query] (function_tools (tool_dicts ts)) w1
          = (Inr msg, w2)"
    and "tool_calls msg = Some tcs" and "tcs \<noteq> []"
  shows "\<exists>r. run_query e query w = Some r"
    and "run_query e query w = Some (Inr st, w') \<Longrightarrow>
           \<exists>cs. length cs = length tcs
              \<and> messages st = [User query, Assistant msg] @ answers tcs cs
              \<and> answered_ids (messages st) = map tc_id tcs"
proof -
  note run = run_query_with_calls [OF assms(2-5)]
  show "\<exists>r. run_query e query w = Some r"
    unfolding run by (rule tool_loop_ends [OF assms(1)])
  assume "run_query e query w = Some (Inr st, w')"
  then have "tool_loop e 0
             \<lparr>messages = [User query, Assistant msg], available_tools = tool_dicts ts,
              final_text = [], call_list = tcs\<rparr> w2 = Some (Inr st, w')"
    by (simp only: run)
  from tool_loop_messages [OF assms(1) this] obtain cs where
    len: "length cs = length tcs" and
    msgs: "messages st = [User query, Assistant msg] @ answers tcs cs" by auto
  have "answered_ids (messages st) = map tc_id tcs"
    using msgs answered_ids_answers [OF len] by simp
  with len msgs show "\<exists>cs. length cs = length tcs
              \<and> messages st = [User query, Assistant msg] @ answers tcs cs
              \<and> answered_ids (messages st) = map tc_id tcs" by blast
qed

text \<open>The recorded model calls.\<close>

lemma recording_simps:
  "list_tools (recording e) wl = (fst (list_tools e (fst wl)), (snd (list_tools e (fst wl)), snd wl))"
  "chat_create (recording e) m msgs ts wl =
     (fst (chat_create e m msgs ts (fst wl)), (snd (chat_create e m msgs ts (fst wl)), snd wl @ [(m, msgs)]))"
  "py_eval (recording e) s fr wl =
     (fst (py_eval e s fr (fst wl)), fst (snd (py_eval e s fr (fst wl))),
      (snd (snd (py_eval e s fr (fst wl))), snd wl))"
  "call_tool (recording e) n a wl = (fst (call_tool e n a (fst wl)), (snd (call_tool e n a (fst wl)), snd wl))"
  "str_of_args (recording e) = str_of_args e"
  by (simp_all add: recording_def split: prod.splits)

lemma leaves_frame_recording: "leaves_frame e \<Longrightarrow> leaves_frame (recording e)"
  by (simp add: leaves_frame_def recording_simps)

text \<open>
  With an evaluator that leaves the frame alone, a completed loop has issued one model call
  per tool call, the call after the \<open>k\<close>-th tool call on the messages with the first
  \<open>k\<close> answers.
\<close>

lemma tool_loop_recorded_calls:
  assumes lf: "leaves_frame e"
  shows "tool_loop (recording e) i st wl = Some (Inr st', wl') \<Longrightarrow>
   \<exists>cs. length cs = length (call_list st) - i
      \<and> messages st' = messages st @ answers (drop i (call_list st)) cs
      \<and> snd wl' = snd wl @ map (\<lambda>k. (cps ''gpt-4-turbo-preview'',
                     messages st @ take (Suc k) (answers (drop i (call_list st)) cs)))
                   [0..<length (call_list st) - i]"
proof (induction "length (call_list st) - i" arbitrary: i st wl)
  case 0
  then have "\<not> i < length (call_list st)" by simp
  with 0 show ?case by (simp add: tool_loop_done answers_Nil)
next
  case (Suc n)
  then have i: "i < length (call_list st)" by simp
  let ?tc = "call_list st ! i"
  let ?m = "cps ''gpt-4-turbo-preview''"
  from tool_loop_step [OF leaves_frame_recording [OF lf] i Suc.prems]
  obtain a w1 c w2 and r :: assistant_message and w3 where
    ev: "py_eval (recording e) (tc_arguments ?tc) (st, ?tc) wl = (Inr a, (st, ?tc), w1)" and
    ct: "call_tool (recording e) (tc_name ?tc) a w1 = (Inr c, w2)" and
    cc: "chat_create (recording e) ?m (messages st @ [Tool (tc_id ?tc) (tc_name ?tc) c])
           (function_tools (available_tools st)) w2 = (Inr r, w3)" and
    rest: "tool_loop (recording e) (Suc i)
               (st\<lparr>messages := messages st @ [Tool (tc_id ?tc) (tc_name ?tc) c],
                   final_text := final_text st
                      @ [Some (trace_line (tc_name ?tc) (str_of_args (recording e) a)), content r]\<rparr>) w3
             = Some (Inr st', wl')" by auto
  let ?t = "Tool (tc_id ?tc) (tc_name ?tc) c"
  let ?st = "st\<lparr>messages := messages st @ [?t],
                   final_text := final_text st
                      @ [Some (trace_line (tc_name ?tc) (str_of_args (recording e) a)), content r]\<rparr>"
  from ev ct cc have log3: "snd w3 = snd wl @ [(?m, messages st @ [?t])]"
    by (auto simp: recording_simps)
  have n: "n = length (call_list ?st) - Suc i" using Suc.hyps(2) by simp
  from Suc.hyps(1) [OF n rest] obtain cs where
    len: "length cs = length (call_list st) - Suc i" and
    msgs: "messages st' = (messages st @ [?t]) @ answers (drop (Suc i) (call_list st)) cs" and
    log: "snd wl' = snd w3 @ map (\<lambda>k. (?m, (messages st @ [?t])
                         @ take (Suc k) (answers (drop (Suc i) (call_list st)) cs)))
                       [0..<length (call_list st) - Suc i]"
    by auto
  have d: "drop i (call_list st) = ?tc # drop (Suc i) (call_list st)"
    using i by (simp add: Cons_nth_drop_Suc)
  have l: "length (call_list st) - i = Suc (length (call_list st) - Suc i)" using i by simp
  have "map (\<lambda>k. (?m, messages st @ take (Suc k) (answers (drop i (call_list st)) (c # cs))))
            [0..<length (call_list st) - i]
        = (?m, messages st @ [?t])
          # map (\<lambda>k. (?m, (messages st @ [?t])
                         @ take (Suc k) (answers (drop (Suc i) (call_list st)) cs)))
                [0..<length (call_list st) - Suc i]"
    unfolding l d by (simp add: answers_Cons map_upt_Suc del: upt_Suc)
  with len msgs log log3 i have
    "length (c # cs) = length (call_list st) - i
      \<and> messages st' = messages st @ answers (drop i (call_list st)) (c # cs)
      \<and> snd wl' = snd wl @ map (\<lambda>k. (?m, messages st
                       @ take (Suc k) (answers (drop i (call_list st)) (c # cs))))
                     [0..<length (call_list st) - i]"
    by (simp add: d answers_Cons)
  then show ?case by blast
qed

lemma run_query_recorded_calls:
  assumes "leaves_frame e" and "list_tools e w = (Inr ts, w1)"
    and "chat_create e (cps ''gpt-4o-mini'') [User query] (function_tools (tool_dicts ts)) w1
          = (Inr msg, w2)"
    and "tool_calls msg = Some tcs" and "tcs \<noteq> []"
    and "run_query (recording e) query (w, []) = Some (Inr st, (w', calls))"
  shows "\<exists>cs. length cs = length tcs
           \<and> calls = (cps ''gpt-4o-mini'', [User query])
               # map (\<lambda>k. (cps ''gpt-4-turbo-preview'',
                             [User query, Assistant msg] @ take (Suc k) (answers tcs cs)))
                     [0..<length tcs]"
proof -
  have l: "list_tools (recording e) (w, []) = (Inr ts, (w1, []))"
    using assms(2) by (simp add: recording_simps)
  have c: "chat_create (recording e) (cps ''gpt-4o-mini'') [User query]
             (function_tools (tool_dicts ts)) (w1, [])
           = (Inr msg, (w2, [(cps ''gpt-4o-mini'', [User query])]))"
    using assms(3) by (simp add: recording_simps)
  from run_query_with_calls [OF l c assms(4,5)] assms(6) have
    "tool_loop (recording e) 0
       \<lparr>messages = [User query, Assistant msg], available_tools = tool_dicts ts,
        final_text = [], call_list = tcs\<rparr>
       (w2, [(cps ''gpt-4o-mini'', [User query])]) = Some (Inr st, (w', calls))" by simp
  from tool_loop_recorded_calls [OF assms(1) this] show ?thesis by auto
qed

lemma sample_run:
  "run_query (sample_env sample_first) (cps ''hi'') [] =
     Some (Inr \<lparr>messages = [User (cps ''hi''), Assistant sample_first,
                Tool (cps ''call_1'') (cps ''get_alerts'') (cps ''get_alerts''),
                Tool (cps ''call_2'') (cps ''get_forecast'') (cps ''get_forecast'')],
            available_tools = [],
            final_text = [Some (trace_line (cps ''get_alerts'') (cps ''{}'')), Some (cps ''done''),
                          Some (trace_line (cps ''get_forecast'') (cps ''{}'')),
                          Some (cps ''done'')],
            call_list = sample_calls\<rparr>,
      cps ''1'' @ [10])"
  by (simp add: run_query_def tool_loop.simps sample_env_def sample_eval_def sample_first_def
      sample_calls_def Let_def cps_def tool_dicts_def function_tools_def)

lemma sample_recorded_run:
  "process_query (recording (sample_env sample_first)) (cps ''hi'') ([], []) =
     Some (Inr (join [10] [trace_line (cps ''get_alerts'') (cps ''{}''), cps ''done'',
                      trace_line (cps ''get_forecast'') (cps ''{}''), cps ''done'']),
      (cps ''1'' @ [10],
       [(cps ''gpt-4o-mini'', [User (cps ''hi'')]),
        (cps ''gpt-4-turbo-preview'', [User (cps ''hi''), Assistant sample_first,
                Tool (cps ''call_1'') (cps ''get_alerts'') (cps ''get_alerts'')]),
        (cps ''gpt-4-turbo-preview'', [User (cps ''hi''), Assistant sample_first,
                Tool (cps ''call_1'') (cps ''get_alerts'') (cps ''get_alerts''),
                Tool (cps ''call_2'') (cps ''get_forecast'') (cps ''get_forecast'')])]))"
  by (simp add: process_query_def run_query_def tool_loop.simps recording_def sample_env_def
      sample_eval_def sample_first_def sample_calls_def Let_def join_lines_def cps_def
      tool_dicts_def function_tools_def)

lemma tamper_run:
  "run_query (sample_env tamper_first) (cps ''hi'') [] =
     Some (Inr \<lparr>messages = [User (cps ''hi''), Assistant tamper_first,
                Tool (cps ''call_1'') (cps ''get_alerts'') (cps ''get_alerts''),
                Tool (cps ''call_1'') (cps ''get_alerts'') (cps ''get_alerts''),
                Tool (cps ''call_2'') (cps ''get_forecast'') (cps ''get_forecast'')],
            available_tools = [],
            final_text = [Some (trace_line (cps ''get_alerts'') (cps ''{}'')), Some (cps ''done''),
                          Some (trace_line (cps ''get_forecast'') (cps ''{}'')),
                          Some (cps ''done'')],
            call_list = tamper_calls\<rparr>,
      [])"
  by (simp add: run_query_def tool_loop.simps sample_env_def sample_eval_def tamper_first_def
      tamper_calls_def Let_def cps_def tool_dicts_def function_tools_def)

subsection \<open>A first answer without tool calls\<close>

text \<open>
  C5. When the tools are listed, the first model call succeeds, and its answer asks for no
  tool call (\<open>tool_calls\<close> is \<open>None\<close> or empty), \<open>process_query\<close> returns the text
  content of that answer, unchanged, in the world the model call left. (When the answer
  has no text content, the final \<open>join\<close> raises a TypeError.)
\<close>

theorem no_tool_calls_returns_the_text:
  assumes "list_tools e w = (Inr ts, w1)"
    and "chat_create e (cps ''gpt-4o-mini'') [User query] (function_tools (tool_dicts ts)) w1
          = (Inr msg, w2)"
    and "tool_calls msg = None \<or> tool_calls msg = Some []"
  shows "(content msg = Some reply \<longrightarrow> process_query e query w = Some (Inr reply, w2))
       \<and> (content msg = None \<longrightarrow> process_query e query w = Some (Inl TypeError, w2))"
  using run_query_without_calls [OF assms]
  by (simp add: process_query_def join_lines_def)

theorem no_tool_calls_returns_the_text_witness:
  "list_tools (sample_env \<lparr>content = Some (cps ''hello''), tool_calls = None\<rparr>) [] = (Inr [], [])
   \<and> chat_create (sample_env \<lparr>content = Some (cps ''hello''), tool_calls = None\<rparr>)
        (cps ''gpt-4o-mini'') [User (cps ''hi'')] (function_tools (tool_dicts [])) []
       = (Inr \<lparr>content = Some (cps ''hello''), tool_calls = None\<rparr>, [])
   \<and> process_query (sample_env \<lparr>content = Some (cps ''hello''), tool_calls = None\<rparr>) (cps ''hi'') []
       = Some (Inr (cps ''hello''), [])
   \<and> process_query (sample_env \<lparr>content = Some (cps ''hello''), tool_calls = Some []\<rparr>) (cps ''hi'') []
       = Some (Inr (cps ''hello''), [])"
proof -
  let ?m = "\<lparr>content = Some (cps ''hello''), tool_calls = None\<rparr>"
  let ?m' = "\<lparr>content = Some (cps ''hello''), tool_calls = Some []\<rparr>"
  have h1: "list_tools (sample_env m) [] = (Inr [], [])" for m
    by (simp add: sample_env_def)
  have h2: "chat_create (sample_env m) (cps ''gpt-4o-mini'') [User (cps ''hi'')]
        (function_tools (tool_dicts [])) [] = (Inr m, [])" for m
    by (simp add: sample_env_def)
  have h3: "tool_calls ?m = None \<or> tool_calls ?m = Some []" by simp
  have h3': "tool_calls ?m' = None \<or> tool_calls ?m' = Some []" by simp
  have a: "process_query (sample_env ?m) (cps ''hi'') [] = Some (Inr (cps ''hello''), [])"
    using no_tool_calls_returns_the_text [OF h1 h2 h3, of "cps ''hello''"] by simp
  have b: "process_query (sample_env ?m') (cps ''hi'') [] = Some (Inr (cps ''hello''), [])"
    using no_tool_calls_returns_the_text [OF h1 h2 h3', of "cps ''hello''"] by simp
  show ?thesis using h1 [of ?m] h2 [of ?m] a b by (intro conjI)
qed

subsection \<open>The model call inside the loop\<close>

text \<open>
  C2, on a first answer with two tool calls. The claim asks for exactly one further model
  call, after both calls are answered, and an output of two trace lines followed by one
  text. The code calls the model inside the loop: in the run below three model calls are
  recorded, the first one and one after each tool call, and the output is a trace line, a
  reply, the second trace line and the second reply.
\<close>

theorem two_tool_calls_get_two_follow_up_calls:
  "map_option fst (process_query (recording (sample_env sample_first)) (cps ''hi'') ([], []))
     = Some (Inr (join [10] [trace_line (cps ''get_alerts'') (cps ''{}''), cps ''done'',
                       trace_line (cps ''get_forecast'') (cps ''{}''), cps ''done'']))
   \<and> map_option (\<lambda>r. map fst (snd (snd r)))
        (process_query (recording (sample_env sample_first)) (cps ''hi'') ([], []))
     = Some [cps ''gpt-4o-mini'', cps ''gpt-4-turbo-preview'', cps ''gpt-4-turbo-preview'']
   \<and> tool_calls sample_first = Some sample_calls \<and> length sample_calls = 2"
  by (simp add: sample_recorded_run) (simp add: sample_first_def sample_calls_def)

text \<open>
  C3, on the same run. The claim asks that at every model call every tool call of the
  earlier assistant message has its tool message. The second model call of the run is
  issued on the user message, the assistant message with the calls \<open>call_1\<close> and
  \<open>call_2\<close>, and the tool message for \<open>call_1\<close> alone: \<open>call_2\<close> has no answer
  at that point.
\<close>

theorem follow_up_call_leaves_a_tool_call_unanswered:
  "map_option (\<lambda>r. snd (snd r) ! 1)
      (process_query (recording (sample_env sample_first)) (cps ''hi'') ([], []))
     = Some (cps ''gpt-4-turbo-preview'',
        [User (cps ''hi''), Assistant sample_first,
         Tool (cps ''call_1'') (cps ''get_alerts'') (cps ''get_alerts'')])
   \<and> tool_calls sample_first = Some sample_calls
   \<and> map tc_id sample_calls = [cps ''call_1'', cps ''call_2'']
   \<and> answered_ids [User (cps ''hi''), Assistant sample_first,
         Tool (cps ''call_1'') (cps ''get_alerts'') (cps ''get_alerts'')] = [cps ''call_1'']
   \<and> cps ''call_2'' \<noteq> cps ''call_1''"
  by (simp add: sample_recorded_run) (simp add: sample_first_def sample_calls_def cps_def)

subsection \<open>The argument string\<close>

text \<open>
  C1, on the same first answer. The claim asks for a strict parser that rejects an
  argument string that is not a serialized structure and never runs it. \<open>process_query\<close>
  hands the string of each call to \<open>eval\<close> as it is. In the run below the second
  argument string is the expression \<open>print(1) or {}\<close>: the query is not failed, the
  call in the string is run (the standard output holds \<open>1\<close> and a newline afterwards),
  and the tool is called with the value of the expression, the empty dict of the trace
  line.
\<close>

theorem argument_string_is_evaluated_unchecked:
  "process_query (sample_env sample_first) (cps ''hi'') []
     = Some (Inr (join [10] [trace_line (cps ''get_alerts'') (cps ''{}''), cps ''done'',
                        trace_line (cps ''get_forecast'') (cps ''{}''), cps ''done'']),
        cps ''1'' @ [10])
   \<and> sample_eval (cps ''print(1) or {}'') fr [] = (Inr (JObj []), fr, cps ''1'' @ [10])"
  by (simp add: process_query_def sample_run join_lines_def) (simp add: sample_eval_def cps_def)

text \<open>
  C4, on a first answer with two tool calls whose second argument string is the expression
  \<open>messages.append(messages[2]) or {}\<close>. The claim asks for exactly two tool messages,
  one per call, in call order. The expression is evaluated in the frame of
  \<open>process_query\<close> and appends the tool message of the first call to \<open>messages\<close> once
  more, so the query returns normally with three tool messages in the conversation, two of
  them for \<open>call_1\<close>. (With an evaluator that leaves the frame alone the conversation
  has one tool message per call, see \<open>run_query_leaves_frame\<close>.)
\<close>

theorem argument_string_can_add_a_tool_message:
  "run_query (sample_env tamper_first) (cps ''hi'') [] =
     Some (Inr \<lparr>messages = [User (cps ''hi''), Assistant tamper_first,
                Tool (cps ''call_1'') (cps ''get_alerts'') (cps ''get_alerts''),
                Tool (cps ''call_1'') (cps ''get_alerts'') (cps ''get_alerts''),
                Tool (cps ''call_2'') (cps ''get_forecast'') (cps ''get_forecast'')],
            available_tools = [],
            final_text = [Some (trace_line (cps ''get_alerts'') (cps ''{}'')), Some (cps ''done''),
                          Some (trace_line (cps ''get_forecast'') (cps ''{}'')),
                          Some (cps ''done'')],
            call_list = tamper_calls\<rparr>,
      [])
   \<and> process_query (sample_env tamper_first) (cps ''hi'') []
       = Some (Inr (join [10] [trace_line (cps ''get_alerts'') (cps ''{}''), cps ''done'',
                               trace_line (cps ''get_forecast'') (cps ''{}''), cps ''done'']), [])
   \<and> tool_calls tamper_first = Some tamper_calls
   \<and> map tc_id tamper_calls = [cps ''call_1'', cps ''call_2'']
   \<and> answered_ids [User (cps ''hi''), Assistant tamper_first,
                Tool (cps ''call_1'') (cps ''get_alerts'') (cps ''get_alerts''),
                Tool (cps ''call_1'') (cps ''get_alerts'') (cps ''get_alerts''),
                Tool (cps ''call_2'') (cps ''get_forecast'') (cps ''get_forecast'')]
       = [cps ''call_1'', cps ''call_1'', cps ''call_2'']"
  by (simp add: tamper_run process_query_def join_lines_def)
     (simp add: tamper_first_def tamper_calls_def)

end
